theory Spec2Isabelle
  imports Complex_Main
begin

section \<open>Errors and HTTP status codes\<close>

text \<open>
  Every way a request of \<^verbatim>\<open>api/main.py\<close> can end without its normal result is a value:
  \<^item> \<open>HTTPException code detail\<close> is the exception the handlers raise themselves;
  \<^item> \<open>RequestValidationError\<close> is the rejection of a body that does not have the declared
    type \<^verbatim>\<open>SystemData\<close> (answered with status 422);
  \<^item> \<open>InternalServerError\<close> is any other exception that leaves a handler, among them every
    failure of a database operation (answered with status 500).
\<close>

datatype http_error =
    HTTPException nat string
  | RequestValidationError
  | InternalServerError

fun status_code :: "http_error \<Rightarrow> nat" where
  "status_code (HTTPException code detail) = code"
| "status_code RequestValidationError = 422"
| "status_code InternalServerError = 500"

text \<open>The status of a response: the error's status, or the route's declared success status.\<close>

definition response_status :: "nat \<Rightarrow> http_error + 'a \<Rightarrow> nat" where
  "response_status ok r = (case r of Inl e \<Rightarrow> status_code e | Inr v \<Rightarrow> ok)"

section \<open>The bearer check\<close>

text \<open>
  Python's \<^verbatim>\<open>s.startswith(p)\<close> and \<^verbatim>\<open>s.split(" ")\<close>. With an explicit separator every single
  space separates two fields, so consecutive spaces give empty fields, and the result is
  never empty: \<^verbatim>\<open>"".split(" ") == [""]\<close>.
\<close>

definition startswith :: "string \<Rightarrow> string \<Rightarrow> bool" where
  "startswith s p = (take (length p) s = p)"

fun split_sp :: "string \<Rightarrow> string list" where
  "split_sp [] = [[]]"
| "split_sp (c # cs) =
     (if c = CHR '' '' then [] # split_sp cs
      else (case split_sp cs of
              [] \<Rightarrow> [[c]]
            | w # ws \<Rightarrow> (c # w) # ws))"

text \<open>Indexing a Python list: out of range is an \<^verbatim>\<open>IndexError\<close>, here \<open>None\<close>.\<close>

definition item :: "'a list \<Rightarrow> nat \<Rightarrow> 'a option" where
  "item xs n = (if n < length xs then Some (xs ! n) else None)"

text \<open>The detail text of the 401 error, \<^verbatim>\<open>"Token de autorizaci\'on inv\'alido"\<close> (code points).\<close>

definition invalid_token_detail :: string where
  "invalid_token_detail =
     ''Token de autorizaci'' @ [char_of (243::nat)] @ ''n inv'' @ [char_of (225::nat)] @ ''lido''"

text \<open>
  \<^verbatim>\<open>verify_token\<close> (lines 82 to 84). \<open>API_TOKEN\<close> is the module constant read from the
  environment; it is a parameter here. The \<^verbatim>\<open>or\<close> evaluates \<^verbatim>\<open>split(" ")[1]\<close> only when the
  prefix test passed; an \<^verbatim>\<open>IndexError\<close> there would leave the function as an unhandled
  exception.
\<close>

definition verify_token :: "string \<Rightarrow> string \<Rightarrow> http_error + unit" where
  "verify_token API_TOKEN authorization =
     (if \<not> startswith authorization ''Bearer ''
      then Inl (HTTPException 401 invalid_token_detail)
      else (case item (split_sp authorization) 1 of
              None \<Rightarrow> Inl InternalServerError
            | Some field \<Rightarrow>
                if field \<noteq> API_TOKEN
                then Inl (HTTPException 401 invalid_token_detail)
                else Inr ()))"

section \<open>The tables\<close>

text \<open>
  A \<open>datetime\<close> is a reading of \<^verbatim>\<open>datetime.utcnow()\<close>, counted in microseconds (the
  resolution of Python's \<^verbatim>\<open>datetime\<close>). The wall clock is an input of the program: nothing
  in the source makes two readings ordered.
\<close>

type_synonym datetime = int

text \<open>
  The four ORM classes (lines 27 to 57), one record per row. Columns of different tables
  that share a name carry the table as a prefix: \<open>sys_id\<close>, \<open>col_id\<close>, \<open>proc_id\<close>,
  \<open>lu_id\<close> are the \<^verbatim>\<open>id\<close> columns, \<open>proc_collection_id\<close> and \<open>lu_collection_id\<close> the
  \<^verbatim>\<open>collection_id\<close> foreign keys. The type \<open>'f\<close> stands for Python's \<^verbatim>\<open>float\<close>: the
  program only copies such values, so the model is parametric in them.
\<close>

record System =
  sys_id :: nat
  ip_address :: string
  os_name :: string
  os_version :: string
  first_seen :: datetime
  last_seen :: datetime

record 'f Collection =
  col_id :: nat
  system_id :: nat
  collection_timestamp :: datetime
  cpu_usage_percent :: "'f option"

record Process =
  proc_id :: nat
  proc_collection_id :: nat
  proc_pid :: int
  proc_name :: string
  proc_username :: "string option"

record LoggedUser =
  lu_id :: nat
  lu_collection_id :: nat
  lu_username :: string
  lu_terminal :: "string option"

text \<open>The committed content of the database: the rows of each table, in insertion order.\<close>

record 'f store =
  systems :: "System list"
  collections :: "'f Collection list"
  processes :: "Process list"
  logged_users :: "LoggedUser list"

text \<open>
  An \<^verbatim>\<open>id\<close> column is an auto-increment primary key: a new row gets an id above every id
  of its table.
\<close>

definition next_id :: "nat list \<Rightarrow> nat" where
  "next_id ids = Suc (fold max ids 0)"

text \<open>
  The constraints the table declarations put on a store: primary keys and the
  \<^verbatim>\<open>unique=True\<close> address are distinct, and every foreign key names a row of its parent
  table.
\<close>

definition wf_store :: "'f store \<Rightarrow> bool" where
  "wf_store db \<longleftrightarrow>
     distinct (map sys_id (systems db)) \<and>
     distinct (map ip_address (systems db)) \<and>
     distinct (map col_id (collections db)) \<and>
     list_all (\<lambda>c. system_id c \<in> set (map sys_id (systems db))) (collections db) \<and>
     list_all (\<lambda>p. proc_collection_id p \<in> set (map col_id (collections db))) (processes db) \<and>
     list_all (\<lambda>u. lu_collection_id u \<in> set (map col_id (collections db))) (logged_users db)"

section \<open>The request body\<close>

text \<open>
  The pydantic classes (lines 60 to 67). A \<open>dict\<close> is an unstructured JSON object, which
  the program never looks into. \<open>proc_entry\<close> is \<^verbatim>\<open>ProcessInfo | dict\<close>, and
  \<open>list_or_dict\<close> is a field that arrives either as a JSON array or as a JSON object.
\<close>

type_synonym dict = "(string \<times> string) list"

record 'f CPUInfo =
  physical_cores :: "int option"
  total_cores :: "int option"
  frequency :: "('f + string) option"
  usage_percent :: "'f option"
  error :: "string option"

record ProcessInfo =
  pid :: int
  name :: string
  username :: "string option"

record UserInfo =
  user :: string
  terminal :: "string option"

datatype proc_entry = IsProcessInfo ProcessInfo | IsDict dict

datatype 'a list_or_dict = PyList "'a list" | PyDict dict

record 'f SystemData =
  data_os_name :: string
  data_os_version :: string
  cpu_info :: "'f CPUInfo"
  running_processes :: "proc_entry list_or_dict"
  logged_in_users :: "UserInfo list_or_dict"

text \<open>
  The framework checks the body against the declared type of \<^verbatim>\<open>SystemData\<close> before the
  handler runs and answers 422 when it does not fit. The bodies modelled here have
  well-typed scalar fields; what is left to check is the shape of the two compound
  fields. Line 67 declares \<^verbatim>\<open>running_processes: list[ProcessInfo | dict]\<close>, a list whose
  entries may be unstructured, and \<^verbatim>\<open>logged_in_users: list[UserInfo] | dict\<close>, a list or an
  unstructured object. So an object is accepted for \<^verbatim>\<open>logged_in_users\<close> and refused for
  \<^verbatim>\<open>running_processes\<close>.
\<close>

definition validate_SystemData :: "'f SystemData \<Rightarrow> http_error + 'f SystemData" where
  "validate_SystemData body =
     (case running_processes body of
        PyList entries \<Rightarrow> Inr body
      | PyDict d \<Rightarrow> Inl RequestValidationError)"

section \<open>The ingest handler\<close>

text \<open>
  What a request carries: the \<^verbatim>\<open>Authorization\<close> header when there is one, the
  \<^verbatim>\<open>x-forwarded-for\<close> header when there is one, the peer address \<^verbatim>\<open>request.client.host\<close>,
  and the body. The body is either text that is not JSON, or JSON, of which the model
  represents the values described at \<open>validate_SystemData\<close>.
\<close>

datatype 'f json_body = Unparsable | Parsed "'f SystemData"

record 'f request =
  authorization :: "string option"
  x_forwarded_for :: "string option"
  client_host :: string
  body :: "'f json_body"

text \<open>
  The environment of one request. \<open>utcnow k\<close> is the value of the \<open>k\<close>-th call of
  \<^verbatim>\<open>datetime.utcnow\<close> during the request (explicit calls and column defaults alike).
  \<open>fails op\<close> says whether the database operation \<open>op\<close> raises when the request
  reaches it.
\<close>

type_synonym clock = "nat \<Rightarrow> datetime"

datatype db_op = SelectSystem | FlushSystem | FlushCollection | Commit | SelectCollections

type_synonym faults = "db_op \<Rightarrow> bool"

text \<open>\<^verbatim>\<open>result.scalar_one_or_none()\<close>: more than one row is an exception.\<close>

fun scalar_one_or_none :: "'a list \<Rightarrow> http_error + 'a option" where
  "scalar_one_or_none [] = Inr None"
| "scalar_one_or_none [x] = Inr (Some x)"
| "scalar_one_or_none (x # y # rows) = Inl InternalServerError"

text \<open>Line 88: \<^verbatim>\<open>request.headers.get("x-forwarded-for", request.client.host)\<close>.\<close>

definition client_ip_of :: "'f request \<Rightarrow> string" where
  "client_ip_of request =
     (case x_forwarded_for request of Some v \<Rightarrow> v | None \<Rightarrow> client_host request)"

text \<open>
  Lines 90 to 96. The result is the \<^verbatim>\<open>system\<close> object, the \<^verbatim>\<open>systems\<close> table as the session
  sees it afterwards, and the number of clock readings taken. A new row takes its two
  timestamps from the column defaults, one call each; an existing row gets
  \<^verbatim>\<open>last_seen\<close> assigned and nothing else.
\<close>

definition resolve_system ::
  "faults \<Rightarrow> clock \<Rightarrow> 'f SystemData \<Rightarrow> string \<Rightarrow> System list
     \<Rightarrow> http_error + (System \<times> System list \<times> nat)" where
  "resolve_system fails utcnow data client_ip table =
     (if fails SelectSystem then Inl InternalServerError
      else case scalar_one_or_none (filter (\<lambda>r. ip_address r = client_ip) table) of
        Inl e \<Rightarrow> Inl e
      | Inr None \<Rightarrow>
          if fails FlushSystem then Inl InternalServerError
          else let system = \<lparr>sys_id = next_id (map sys_id table), ip_address = client_ip,
                             os_name = data_os_name data, os_version = data_os_version data,
                             first_seen = utcnow 0, last_seen = utcnow 1\<rparr>
               in Inr (system, table @ [system], 2)
      | Inr (Some found) \<Rightarrow>
          let system = found\<lparr>last_seen := utcnow 0\<rparr>
          in Inr (system, map (\<lambda>r. if sys_id r = sys_id found then system else r) table, 1))"

text \<open>Lines 99 to 101: one \<^verbatim>\<open>Process\<close> per entry that is a \<^verbatim>\<open>ProcessInfo\<close>.\<close>

fun add_processes :: "nat \<Rightarrow> proc_entry list \<Rightarrow> Process list \<Rightarrow> Process list" where
  "add_processes cid [] table = table"
| "add_processes cid (IsProcessInfo proc_data # entries) table =
     add_processes cid entries
       (table @ [\<lparr>proc_id = next_id (map proc_id table), proc_collection_id = cid,
                  proc_pid = pid proc_data, proc_name = name proc_data,
                  proc_username = username proc_data\<rparr>])"
| "add_processes cid (IsDict d # entries) table = add_processes cid entries table"

text \<open>Lines 102 and 103: one \<^verbatim>\<open>LoggedUser\<close> per entry.\<close>

fun add_logged_users :: "nat \<Rightarrow> UserInfo list \<Rightarrow> LoggedUser list \<Rightarrow> LoggedUser list" where
  "add_logged_users cid [] table = table"
| "add_logged_users cid (user_data # entries) table =
     add_logged_users cid entries
       (table @ [\<lparr>lu_id = next_id (map lu_id table), lu_collection_id = cid,
                  lu_username = user user_data, lu_terminal = terminal user_data\<rparr>])"

text \<open>
  Lines 88 to 104, on the session's view of the database: the statements of
  \<^verbatim>\<open>collect_data\<close> up to and including \<^verbatim>\<open>db.commit()\<close>. The result is the content that
  the commit makes durable, or the exception that ended the handler.
\<close>

definition collect_session ::
  "faults \<Rightarrow> clock \<Rightarrow> 'f SystemData \<Rightarrow> string \<Rightarrow> 'f store \<Rightarrow> http_error + 'f store" where
  "collect_session fails utcnow data client_ip db =
     (case resolve_system fails utcnow data client_ip (systems db) of
        Inl e \<Rightarrow> Inl e
      | Inr (system, table, k) \<Rightarrow>
          if fails FlushCollection then Inl InternalServerError
          else let collection = \<lparr>col_id = next_id (map col_id (collections db)),
                                 system_id = sys_id system,
                                 collection_timestamp = utcnow k,
                                 cpu_usage_percent = usage_percent (cpu_info data)\<rparr>;
                   procs = (case running_processes data of
                              PyList entries \<Rightarrow>
                                add_processes (col_id collection) entries (processes db)
                            | PyDict d \<Rightarrow> processes db);
                   users = (case logged_in_users data of
                              PyList entries \<Rightarrow>
                                add_logged_users (col_id collection) entries (logged_users db)
                            | PyDict d \<Rightarrow> logged_users db)
               in if fails Commit then Inl InternalServerError
                  else Inr \<lparr>systems = table, collections = collections db @ [collection],
                            processes = procs, logged_users = users\<rparr>)"

text \<open>The body of the success response (line 105).\<close>

definition stored_message :: "string \<Rightarrow> string" where
  "stored_message client_ip = ''Datos de '' @ client_ip @ '' almacenados en la base de datos.''"

text \<open>
  \<^verbatim>\<open>collect_data\<close> inside the session that \<^verbatim>\<open>get_db\<close> opens and closes around it. An
  exception leaves the \<^verbatim>\<open>async with\<close> block without a commit, so the database keeps
  its content; otherwise the commit has replaced it.
\<close>

definition collect_data ::
  "faults \<Rightarrow> clock \<Rightarrow> 'f SystemData \<Rightarrow> 'f request \<Rightarrow> 'f store
     \<Rightarrow> (http_error + (string \<times> string) list) \<times> 'f store" where
  "collect_data fails utcnow data request db =
     (let client_ip = client_ip_of request
      in case collect_session fails utcnow data client_ip db of
           Inl e \<Rightarrow> (Inl e, db)
         | Inr db' \<Rightarrow>
             (Inr [(''status'', ''success''), (''message'', stored_message client_ip)], db'))"

text \<open>
  The route \<^verbatim>\<open>POST /collect\<close> (line 86), in the order in which the framework works.
  The body is read as JSON first; text that is not JSON is answered 422 before any
  dependency runs. Then the dependency \<^verbatim>\<open>verify_token\<close> is resolved: its parameter is a
  required header (\<^verbatim>\<open>Header(...)\<close>), so a request without it is answered 422 and the
  function is not called; with the header the function runs and may raise its 401. Then
  the body is checked against \<^verbatim>\<open>SystemData\<close>, and then the handler runs. The success
  status is 201.
\<close>

definition post_collect ::
  "string \<Rightarrow> faults \<Rightarrow> clock \<Rightarrow> 'f request \<Rightarrow> 'f store
     \<Rightarrow> (http_error + (string \<times> string) list) \<times> 'f store" where
  "post_collect API_TOKEN fails utcnow request db =
     (case body request of
        Unparsable \<Rightarrow> (Inl RequestValidationError, db)
      | Parsed json \<Rightarrow>
          (case authorization request of
             None \<Rightarrow> (Inl RequestValidationError, db)
           | Some header \<Rightarrow>
               (case verify_token API_TOKEN header of
                  Inl e \<Rightarrow> (Inl e, db)
                | Inr ok \<Rightarrow>
                    (case validate_SystemData json of
                       Inl e \<Rightarrow> (Inl e, db)
                     | Inr data \<Rightarrow> collect_data fails utcnow data request db))))"

section \<open>The query handler\<close>

text \<open>
  One element of the response of \<^verbatim>\<open>GET /query/{ip_address}\<close> (line 116): the keys
  \<^verbatim>\<open>collection_timestamp\<close>, \<^verbatim>\<open>cpu_usage\<close>, \<^verbatim>\<open>processes\<close> (a list of \<^verbatim>\<open>{pid, name}\<close>, here
  pairs) and \<^verbatim>\<open>users\<close> (a list of \<^verbatim>\<open>{user}\<close>, here the names).
\<close>

record 'f query_item =
  item_timestamp :: datetime
  cpu_usage :: "'f option"
  item_processes :: "(int \<times> string) list"
  users :: "string list"

definition project :: "'f store \<Rightarrow> 'f Collection \<Rightarrow> 'f query_item" where
  "project db c =
     \<lparr>item_timestamp = collection_timestamp c,
      cpu_usage = cpu_usage_percent c,
      item_processes = map (\<lambda>p. (proc_pid p, proc_name p))
                         (filter (\<lambda>p. proc_collection_id p = col_id c) (processes db)),
      users = map lu_username
                (filter (\<lambda>u. lu_collection_id u = col_id c) (logged_users db))\<rparr>"

text \<open>
  The statement of line 111: \<open>collections_of\<close> is the join of the collections with the
  system row of the given address, \<open>recent_collections\<close> orders it newest first and keeps
  at most five. \<open>sort_key\<close> is stable, so collections with equal
  timestamps stay in insertion order.
\<close>

definition collections_of :: "string \<Rightarrow> 'f store \<Rightarrow> 'f Collection list" where
  "collections_of ip db =
     filter (\<lambda>c. \<exists>r \<in> set (systems db). sys_id r = system_id c \<and> ip_address r = ip)
       (collections db)"

definition recent_collections :: "string \<Rightarrow> 'f store \<Rightarrow> 'f Collection list" where
  "recent_collections ip db =
     take 5 (sort_key (\<lambda>c. - collection_timestamp c) (collections_of ip db))"

definition no_data_detail :: "string \<Rightarrow> string" where
  "no_data_detail ip = ''No se encontraron datos para la IP: '' @ ip"

text \<open>
  Line 112, \<^verbatim>\<open>result.scalars().all()\<close>. The statement loads the two collection
  relationships \<^verbatim>\<open>Collection.processes\<close> and \<^verbatim>\<open>Collection.logged_users\<close> with
  \<^verbatim>\<open>joinedload\<close>, and the result is read without a call of \<^verbatim>\<open>unique()\<close>: the ORM then
  raises \<^verbatim>\<open>InvalidRequestError\<close> at the first row it reads. A result without rows is
  read as the empty list.
\<close>

definition scalars_all :: "'a list \<Rightarrow> http_error + 'a list" where
  "scalars_all rows = (if rows = [] then Inr [] else Inl InternalServerError)"

text \<open>\<^verbatim>\<open>query_data\<close> (lines 107 to 117). Its success status is 200.\<close>

definition query_data :: "faults \<Rightarrow> string \<Rightarrow> 'f store \<Rightarrow> http_error + 'f query_item list" where
  "query_data fails ip db =
     (if fails SelectCollections then Inl InternalServerError
      else case scalars_all (recent_collections ip db) of
        Inl e \<Rightarrow> Inl e
      | Inr cs \<Rightarrow>
          if cs = [] then Inl (HTTPException 404 (no_data_detail ip))
          else Inr (map (project db) cs))"

section \<open>Auxiliary notions for the statements\<close>

text \<open>The entries of the process list that have the expected shape.\<close>

fun process_infos :: "proc_entry list \<Rightarrow> ProcessInfo list" where
  "process_infos [] = []"
| "process_infos (IsProcessInfo p # entries) = p # process_infos entries"
| "process_infos (IsDict d # entries) = process_infos entries"

section \<open>Example inputs\<close>

text \<open>
  Concrete inputs for the examples below: a database that never fails, a clock that
  advances by one at every reading, the empty database, a body with one well-formed
  process entry, one unstructured entry and one logged-in user, a request from
  \<^verbatim>\<open>10.0.0.5\<close>, and the database that this request leaves behind when it is the first
  one (see \<open>first_ingest\<close>). Floats are reals here.
\<close>

definition no_faults :: faults where
  "no_faults op = False"

definition clock_from :: "datetime \<Rightarrow> clock" where
  "clock_from t k = t + int k"

definition empty_store :: "real store" where
  "empty_store = \<lparr>systems = [], collections = [], processes = [], logged_users = []\<rparr>"

definition example_body :: "real SystemData" where
  "example_body =
     \<lparr>data_os_name = ''Linux'', data_os_version = ''6.1'',
      cpu_info = \<lparr>physical_cores = Some 4, total_cores = Some 8, frequency = None,
                  usage_percent = Some 12.5, error = None\<rparr>,
      running_processes = PyList [IsProcessInfo \<lparr>pid = 1, name = ''init'', username = None\<rparr>,
                                  IsDict [(''error'', ''denied'')]],
      logged_in_users = PyList [\<lparr>user = ''root'', terminal = Some ''tty1''\<rparr>]\<rparr>"

definition example_request :: "real request" where
  "example_request =
     \<lparr>authorization = Some ''Bearer s3cret'', x_forwarded_for = None,
      client_host = ''10.0.0.5'', body = Parsed example_body\<rparr>"

definition example_store :: "real store" where
  "example_store =
     \<lparr>systems = [\<lparr>sys_id = 1, ip_address = ''10.0.0.5'', os_name = ''Linux'',
                   os_version = ''6.1'', first_seen = 100, last_seen = 101\<rparr>],
      collections = [\<lparr>col_id = 1, system_id = 1, collection_timestamp = 102,
                       cpu_usage_percent = Some 12.5\<rparr>],
      processes = [\<lparr>proc_id = 1, proc_collection_id = 1, proc_pid = 1,
                     proc_name = ''init'', proc_username = None\<rparr>],
      logged_users = [\<lparr>lu_id = 1, lu_collection_id = 1, lu_username = ''root'',
                        lu_terminal = Some ''tty1''\<rparr>]\<rparr>"

text \<open>
  A database whose commit fails, a body whose process list is an object, and a body
  whose process list holds one unstructured entry only.
\<close>

definition commit_fails :: faults where
  "commit_fails op = (op = Commit)"

definition mapping_body :: "real SystemData" where
  "mapping_body = example_body\<lparr>running_processes := PyDict [(''error'', ''denied'')]\<rparr>"

definition dict_only_body :: "real SystemData" where
  "dict_only_body = example_body\<lparr>running_processes := PyList [IsDict [(''error'', ''denied'')]]\<rparr>"

text \<open>
  Two stores for the query: one with a host row and no collection, and one where the
  host \<^verbatim>\<open>10.0.0.5\<close> owns six collections, two of them with the same timestamp, and
  another host owns one.
\<close>

definition host_only_store :: "real store" where
  "host_only_store =
     \<lparr>systems = [\<lparr>sys_id = 1, ip_address = ''10.0.0.9'', os_name = ''Linux'',
                   os_version = ''6.1'', first_seen = 100, last_seen = 100\<rparr>],
      collections = [], processes = [], logged_users = []\<rparr>"

definition busy_store :: "real store" where
  "busy_store =
     \<lparr>systems = [\<lparr>sys_id = 1, ip_address = ''10.0.0.5'', os_name = ''Linux'',
                   os_version = ''6.1'', first_seen = 10, last_seen = 50\<rparr>,
                  \<lparr>sys_id = 2, ip_address = ''10.0.0.6'', os_name = ''Linux'',
                   os_version = ''6.1'', first_seen = 60, last_seen = 60\<rparr>],
      collections = [\<lparr>col_id = 1, system_id = 1, collection_timestamp = 10, cpu_usage_percent = Some 1\<rparr>,
                     \<lparr>col_id = 2, system_id = 1, collection_timestamp = 30, cpu_usage_percent = None\<rparr>,
                     \<lparr>col_id = 3, system_id = 1, collection_timestamp = 20, cpu_usage_percent = Some 3\<rparr>,
                     \<lparr>col_id = 4, system_id = 2, collection_timestamp = 60, cpu_usage_percent = Some 4\<rparr>,
                     \<lparr>col_id = 5, system_id = 1, collection_timestamp = 30, cpu_usage_percent = Some 5\<rparr>,
                     \<lparr>col_id = 6, system_id = 1, collection_timestamp = 50, cpu_usage_percent = Some 6\<rparr>,
                     \<lparr>col_id = 7, system_id = 1, collection_timestamp = 40, cpu_usage_percent = Some 7\<rparr>],
      processes = [\<lparr>proc_id = 1, proc_collection_id = 6, proc_pid = 1,
                     proc_name = ''init'', proc_username = Some ''root''\<rparr>,
                   \<lparr>proc_id = 2, proc_collection_id = 1, proc_pid = 1,
                     proc_name = ''init'', proc_username = None\<rparr>],
      logged_users = [\<lparr>lu_id = 1, lu_collection_id = 6, lu_username = ''root'',
                        lu_terminal = None\<rparr>]\<rparr>"

section \<open>Properties of the bearer check\<close>

lemma split_sp_nonempty: "split_sp s \<noteq> []"
  by (induction s) (auto split: list.splits)

lemma split_sp_field:
  "CHR '' '' \<notin> set w \<Longrightarrow> split_sp (w @ CHR '' '' # rest) = w # split_sp rest"
  by (induction w) (auto split: list.splits)

lemma startswith_append: "startswith (p @ s) p"
  by (simp add: startswith_def)

lemma startswith_Bearer:
  "startswith h ''Bearer '' \<longleftrightarrow> (\<exists>rest. h = ''Bearer '' @ rest)"
  unfolding startswith_def
  by (metis append_take_drop_id append_eq_conv_conj)

lemma split_sp_Bearer: "split_sp (''Bearer '' @ rest) = ''Bearer'' # split_sp rest"
  using split_sp_field [of "''Bearer''" rest] by simp

lemma item_Bearer: "item (split_sp (''Bearer '' @ rest)) 1 = Some (hd (split_sp rest))"
proof -
  obtain w ws where ws: "split_sp rest = w # ws"
    using split_sp_nonempty [of rest] by (cases "split_sp rest") auto
  show ?thesis
    unfolding split_sp_Bearer ws by (simp add: item_def)
qed

lemma verify_token_Bearer:
  "verify_token tok (''Bearer '' @ rest) =
     (if hd (split_sp rest) = tok then Inr ()
      else Inl (HTTPException 401 invalid_token_detail))"
proof -
  have "startswith (''Bearer '' @ rest) ''Bearer ''"
    by (rule startswith_append)
  then show ?thesis
    unfolding verify_token_def item_Bearer by auto
qed

lemma verify_token_not_Bearer:
  "\<not> startswith h ''Bearer '' \<Longrightarrow>
     verify_token tok h = Inl (HTTPException 401 invalid_token_detail)"
  by (simp add: verify_token_def)

text \<open>The check has two outcomes only: the \<^verbatim>\<open>IndexError\<close> branch is never taken.\<close>

lemma verify_token_cases:
  "verify_token tok h = Inr () \<or>
   verify_token tok h = Inl (HTTPException 401 invalid_token_detail)"
proof (cases "startswith h ''Bearer ''")
  case False
  then show ?thesis by (simp add: verify_token_not_Bearer)
next
  case True
  then obtain rest where "h = ''Bearer '' @ rest"
    unfolding startswith_Bearer by blast
  then show ?thesis
    by (cases "hd (split_sp rest) = tok") (simp_all only: verify_token_Bearer if_True if_False simp_thms)
qed

lemma verify_token_Inr_iff:
  "verify_token tok h = Inr () \<longleftrightarrow>
     startswith h ''Bearer '' \<and> item (split_sp h) 1 = Some tok"
  by (auto simp: verify_token_def split: option.splits)

text \<open>
  The second field of \<^verbatim>\<open>split(" ")\<close> is the text between the prefix and the next space.
\<close>

lemma hd_split_sp: "hd (split_sp s) = takeWhile (\<lambda>c. c \<noteq> CHR '' '') s"
proof (induction s)
  case Nil
  show ?case by simp
next
  case (Cons c cs)
  obtain w ws where "split_sp cs = w # ws"
    using split_sp_nonempty [of cs] by (cases "split_sp cs") auto
  with Cons show ?case by auto
qed

lemma verify_token_field:
  "verify_token tok h = Inr () \<longleftrightarrow>
     (\<exists>rest. h = ''Bearer '' @ rest \<and> takeWhile (\<lambda>c. c \<noteq> CHR '' '') rest = tok)"
proof
  assume ok: "verify_token tok h = Inr ()"
  then have "startswith h ''Bearer ''"
    by (simp add: verify_token_Inr_iff)
  then obtain rest where rest: "h = ''Bearer '' @ rest"
    unfolding startswith_Bearer by blast
  have "hd (split_sp rest) = tok"
  proof (rule ccontr)
    assume "hd (split_sp rest) \<noteq> tok"
    then have "verify_token tok (''Bearer '' @ rest) = Inl (HTTPException 401 invalid_token_detail)"
      by (simp only: verify_token_Bearer if_False)
    with ok rest show False by simp
  qed
  with rest show "\<exists>rest. h = ''Bearer '' @ rest \<and> takeWhile (\<lambda>c. c \<noteq> CHR '' '') rest = tok"
    by (auto simp only: hd_split_sp)
next
  assume "\<exists>rest. h = ''Bearer '' @ rest \<and> takeWhile (\<lambda>c. c \<noteq> CHR '' '') rest = tok"
  then obtain rest where "h = ''Bearer '' @ rest" "hd (split_sp rest) = tok"
    by (auto simp only: hd_split_sp)
  then show "verify_token tok h = Inr ()"
    by (simp only: verify_token_Bearer simp_thms if_True)
qed

lemma takeWhile_field:
  "takeWhile (\<lambda>c. c \<noteq> CHR '' '') (w @ CHR '' '' # rest) = w \<longleftrightarrow> CHR '' '' \<notin> set w"
proof
  assume "takeWhile (\<lambda>c. c \<noteq> CHR '' '') (w @ CHR '' '' # rest) = w"
  then have "set w = set (takeWhile (\<lambda>c. c \<noteq> CHR '' '') (w @ CHR '' '' # rest))"
    by simp
  then show "CHR '' '' \<notin> set w"
    using set_takeWhileD [of "CHR '' ''" "\<lambda>c. c \<noteq> CHR '' ''" "w @ CHR '' '' # rest"] by blast
next
  assume "CHR '' '' \<notin> set w"
  then show "takeWhile (\<lambda>c. c \<noteq> CHR '' '') (w @ CHR '' '' # rest) = w"
    by (induction w) auto
qed

text \<open>
  C10 as stated fails in both consequences: with the empty secret the header with two
  spaces before the secret is accepted, and with the secret \<^verbatim>\<open>a b\<close> the header
  \<^verbatim>\<open>Bearer a b x\<close>, the secret followed by a space and more, is rejected.
\<close>

theorem verify_token_bearer_counterexample:
  "verify_token [] (''Bearer  '' @ []) = Inr () \<and>
   verify_token ''a b'' (''Bearer '' @ ''a b'' @ '' '' @ ''x'')
     = Inl (HTTPException 401 invalid_token_detail)"
  by (simp add: verify_token_def startswith_def item_def)

text \<open>
  C10, amended. The request is authorized if and only if the header starts with
  \<^verbatim>\<open>"Bearer "\<close> and its second space-separated field is the configured secret, that is,
  if and only if the text between that prefix and the next space (or the end) is the
  secret; every other header is answered with the 401 error. The secret followed by a
  space and anything else is accepted exactly when the secret contains no space (a
  secret with a space is never accepted), and the secret after two spaces is rejected
  exactly when the secret is not empty.
\<close>

theorem verify_token_bearer:
  "(verify_token API_TOKEN header = Inr () \<longleftrightarrow>
      startswith header ''Bearer '' \<and>
      item (split_sp header) 1 = Some API_TOKEN)
   \<and> (verify_token API_TOKEN header = Inr () \<longleftrightarrow>
      (\<exists>rest. header = ''Bearer '' @ rest \<and>
         takeWhile (\<lambda>c. c \<noteq> CHR '' '') rest = API_TOKEN))
   \<and> (verify_token API_TOKEN header \<noteq> Inr () \<longrightarrow>
      verify_token API_TOKEN header = Inl (HTTPException 401 invalid_token_detail))
   \<and> (verify_token API_TOKEN (''Bearer '' @ API_TOKEN @ '' '' @ anything) = Inr () \<longleftrightarrow>
      CHR '' '' \<notin> set API_TOKEN)
   \<and> (verify_token API_TOKEN (''Bearer  '' @ API_TOKEN)
        = Inl (HTTPException 401 invalid_token_detail) \<longleftrightarrow> API_TOKEN \<noteq> [])"
proof -
  have c1: "verify_token API_TOKEN header = Inr () \<longleftrightarrow>
      startswith header ''Bearer '' \<and> item (split_sp header) 1 = Some API_TOKEN"
    by (rule verify_token_Inr_iff)
  have c2: "verify_token API_TOKEN header = Inr () \<longleftrightarrow>
      (\<exists>rest. header = ''Bearer '' @ rest \<and>
         takeWhile (\<lambda>c. c \<noteq> CHR '' '') rest = API_TOKEN)"
    by (rule verify_token_field)
  have c3: "verify_token API_TOKEN header \<noteq> Inr () \<longrightarrow>
      verify_token API_TOKEN header = Inl (HTTPException 401 invalid_token_detail)"
    using verify_token_cases [of API_TOKEN header] by blast
  have "hd (split_sp (API_TOKEN @ '' '' @ anything)) = API_TOKEN \<longleftrightarrow>
      CHR '' '' \<notin> set API_TOKEN"
    using takeWhile_field [of API_TOKEN anything] by (simp add: hd_split_sp)
  then have c4: "verify_token API_TOKEN (''Bearer '' @ API_TOKEN @ '' '' @ anything) = Inr ()
      \<longleftrightarrow> CHR '' '' \<notin> set API_TOKEN"
    by (simp only: verify_token_Bearer) simp
  have eq: "''Bearer  '' @ API_TOKEN = ''Bearer '' @ ('' '' @ API_TOKEN)" by simp
  have "hd (split_sp ('' '' @ API_TOKEN)) = []" by simp
  then have c5: "verify_token API_TOKEN (''Bearer  '' @ API_TOKEN)
        = Inl (HTTPException 401 invalid_token_detail) \<longleftrightarrow> API_TOKEN \<noteq> []"
    unfolding eq by (simp only: verify_token_Bearer) auto
  from c1 c2 c3 c4 c5 show ?thesis by (simp only: simp_thms)
qed

theorem verify_token_bearer_witness:
  "CHR '' '' \<notin> set ''s3cret'' \<and> ''s3cret'' \<noteq> [] \<and>
   verify_token ''s3cret'' (''Bearer '' @ ''s3cret'' @ '' '' @ ''extra words'') = Inr () \<and>
   verify_token ''s3cret'' (''Bearer  '' @ ''s3cret'')
     = Inl (HTTPException 401 invalid_token_detail) \<and>
   verify_token ''s3cret'' ''Basic s3cret'' \<noteq> Inr () \<and>
   verify_token ''s3cret'' ''Basic s3cret'' = Inl (HTTPException 401 invalid_token_detail)"
  using verify_token_bearer [of "''s3cret''" "''Basic s3cret''" "''extra words''"]
  by (simp add: verify_token_def startswith_def)

section \<open>Helper lemmas about the tables\<close>

lemma fold_max_bounds: "a \<le> fold max ids a \<and> (\<forall>i \<in> set ids. i \<le> fold max ids (a::nat))"
proof (induction ids arbitrary: a)
  case Nil
  show ?case by simp
next
  case (Cons j ids)
  have "max j a \<le> fold max ids (max j a)" and "\<forall>i \<in> set ids. i \<le> fold max ids (max j a)"
    using Cons.IH [of "max j a"] by simp_all
  then show ?case by auto
qed

lemma next_id_fresh: "i \<in> set ids \<Longrightarrow> i < next_id ids"
  using fold_max_bounds [of 0 ids] by (auto simp: next_id_def less_Suc_eq_le)

lemma next_id_notin: "next_id ids \<notin> set ids"
  using next_id_fresh [of "next_id ids" ids] by auto

lemma filter_key_distinct:
  "distinct (map f xs) \<Longrightarrow> x \<in> set xs \<Longrightarrow> filter (\<lambda>r. f r = f x) xs = [x]"
proof (induction xs)
  case Nil
  then show ?case by simp
next
  case (Cons y ys)
  show ?case
  proof (cases "x = y")
    case True
    have "filter (\<lambda>r. f r = f y) ys = []"
      using Cons.prems(1) by (auto simp: filter_empty_conv intro: rev_image_eqI)
    with True show ?thesis by simp
  next
    case False
    with Cons.prems have "x \<in> set ys" and "f y \<noteq> f x" by auto
    with Cons show ?thesis by simp
  qed
qed

lemma filter_key_absent:
  "\<not> (\<exists>r \<in> set xs. f r = k) \<Longrightarrow> filter (\<lambda>r. f r = k) xs = []"
  by (auto simp: filter_empty_conv)

lemma map_update_by_key:
  assumes "distinct (map sys_id table)" "distinct (map ip_address table)" "found \<in> set table"
  shows "map (\<lambda>r. if sys_id r = sys_id found then g found else r) table
       = map (\<lambda>r. if ip_address r = ip_address found then g r else r) table"
proof (rule map_cong [OF refl])
  fix r assume r: "r \<in> set table"
  have "sys_id r = sys_id found \<longleftrightarrow> r = found"
    using assms(1,3) r by (metis distinct_map inj_onD)
  moreover have "ip_address r = ip_address found \<longleftrightarrow> r = found"
    using assms(2,3) r by (metis distinct_map inj_onD)
  ultimately show "(if sys_id r = sys_id found then g found else r)
       = (if ip_address r = ip_address found then g r else r)" by auto
qed

section \<open>Helper lemmas about the ingest\<close>

lemma resolve_system_new:
  assumes "\<not> fails SelectSystem" "\<not> fails FlushSystem"
    and "\<not> (\<exists>r \<in> set table. ip_address r = client_ip)"
  shows "resolve_system fails utcnow data client_ip table =
     Inr (\<lparr>sys_id = next_id (map sys_id table), ip_address = client_ip,
            os_name = data_os_name data, os_version = data_os_version data,
            first_seen = utcnow 0, last_seen = utcnow 1\<rparr>,
          table @ [\<lparr>sys_id = next_id (map sys_id table), ip_address = client_ip,
            os_name = data_os_name data, os_version = data_os_version data,
            first_seen = utcnow 0, last_seen = utcnow 1\<rparr>], 2)"
  using assms by (simp add: resolve_system_def filter_key_absent Let_def)

lemma resolve_system_existing:
  assumes "\<not> fails SelectSystem"
    and "distinct (map sys_id table)" "distinct (map ip_address table)"
    and "found \<in> set table" "ip_address found = client_ip"
  shows "resolve_system fails utcnow data client_ip table =
     Inr (found\<lparr>last_seen := utcnow 0\<rparr>,
          map (\<lambda>r. if ip_address r = client_ip then r\<lparr>last_seen := utcnow 0\<rparr> else r) table, 1)"
proof -
  have "filter (\<lambda>r. ip_address r = client_ip) table = [found]"
    using filter_key_distinct [of ip_address table found] assms by simp
  moreover have "map (\<lambda>r. if sys_id r = sys_id found then found\<lparr>last_seen := utcnow 0\<rparr> else r) table
     = map (\<lambda>r. if ip_address r = client_ip then r\<lparr>last_seen := utcnow 0\<rparr> else r) table"
    using map_update_by_key [of table found "\<lambda>r. r\<lparr>last_seen := utcnow 0\<rparr>"] assms by simp
  ultimately show ?thesis
    using assms(1) by (simp add: resolve_system_def Let_def)
qed

lemma add_processes_append:
  "\<exists>rows. add_processes cid entries table = table @ rows \<and>
     map (\<lambda>r. (proc_collection_id r, proc_pid r, proc_name r, proc_username r)) rows
       = map (\<lambda>p. (cid, pid p, name p, username p)) (process_infos entries)"
proof (induction cid entries table rule: add_processes.induct)
  case (1 cid table)
  show ?case by simp
next
  case (2 cid proc_data entries table)
  then obtain rows where "add_processes cid entries
       (table @ [\<lparr>proc_id = next_id (map proc_id table), proc_collection_id = cid,
                  proc_pid = pid proc_data, proc_name = name proc_data,
                  proc_username = username proc_data\<rparr>]) = (table @ [\<lparr>proc_id = next_id (map proc_id table), proc_collection_id = cid,
                  proc_pid = pid proc_data, proc_name = name proc_data,
                  proc_username = username proc_data\<rparr>]) @ rows"
     and "map (\<lambda>r. (proc_collection_id r, proc_pid r, proc_name r, proc_username r)) rows
       = map (\<lambda>p. (cid, pid p, name p, username p)) (process_infos entries)"
    by blast
  then show ?case
    by (intro exI [of _ "\<lparr>proc_id = next_id (map proc_id table), proc_collection_id = cid,
                  proc_pid = pid proc_data, proc_name = name proc_data,
                  proc_username = username proc_data\<rparr> # rows"]) simp
next
  case (3 cid d entries table)
  then show ?case by simp
qed

lemma add_logged_users_append:
  "\<exists>rows. add_logged_users cid entries table = table @ rows \<and>
     map (\<lambda>r. (lu_collection_id r, lu_username r, lu_terminal r)) rows
       = map (\<lambda>u. (cid, user u, terminal u)) entries"
proof (induction cid entries table rule: add_logged_users.induct)
  case (1 cid table)
  show ?case by simp
next
  case (2 cid user_data entries table)
  then obtain rows where "add_logged_users cid entries
       (table @ [\<lparr>lu_id = next_id (map lu_id table), lu_collection_id = cid,
                  lu_username = user user_data, lu_terminal = terminal user_data\<rparr>])
       = (table @ [\<lparr>lu_id = next_id (map lu_id table), lu_collection_id = cid,
                  lu_username = user user_data, lu_terminal = terminal user_data\<rparr>]) @ rows"
     and "map (\<lambda>r. (lu_collection_id r, lu_username r, lu_terminal r)) rows
       = map (\<lambda>u. (cid, user u, terminal u)) entries"
    by blast
  then show ?case
    by (intro exI [of _ "\<lparr>lu_id = next_id (map lu_id table), lu_collection_id = cid,
                  lu_username = user user_data, lu_terminal = terminal user_data\<rparr> # rows"]) simp
qed


lemma scalar_one_or_none_filter:
  "scalar_one_or_none (filter P xs) = Inr None \<longleftrightarrow> \<not> (\<exists>x \<in> set xs. P x)"
proof (cases "filter P xs" rule: scalar_one_or_none.cases)
  case 1
  then show ?thesis by (simp add: filter_empty_conv)
next
  case (2 x)
  then have "x \<in> set (filter P xs)" by simp
  then have "\<exists>x \<in> set xs. P x" by auto
  with 2 show ?thesis by simp
next
  case (3 x y rows)
  then have "x \<in> set (filter P xs)" by simp
  then have "\<exists>x \<in> set xs. P x" by auto
  with 3 show ?thesis by simp
qed

lemma scalar_one_or_none_Some:
  "scalar_one_or_none (filter P xs) = Inr (Some x) \<Longrightarrow> x \<in> set xs \<and> P x"
proof (cases "filter P xs" rule: scalar_one_or_none.cases)
  case (2 y)
  moreover assume "scalar_one_or_none (filter P xs) = Inr (Some x)"
  ultimately have "filter P xs = [x]" by simp
  then have "x \<in> set (filter P xs)" by simp
  then show ?thesis by simp
qed auto

lemma resolve_system_Inr:
  assumes "resolve_system fails utcnow data client_ip table = Inr (system, table', k)"
  shows "\<not> fails SelectSystem \<and> system \<in> set table' \<and> ip_address system = client_ip \<and>
     ((\<not> (\<exists>r \<in> set table. ip_address r = client_ip) \<and> \<not> fails FlushSystem \<and>
       system = \<lparr>sys_id = next_id (map sys_id table), ip_address = client_ip,
                 os_name = data_os_name data, os_version = data_os_version data,
                 first_seen = utcnow 0, last_seen = utcnow 1\<rparr> \<and>
       table' = table @ [system] \<and> k = 2)
      \<or> (\<exists>found \<in> set table. ip_address found = client_ip \<and>
           system = found\<lparr>last_seen := utcnow 0\<rparr> \<and>
           table' = map (\<lambda>r. if sys_id r = sys_id found then system else r) table \<and> k = 1))"
proof -
  from assms have sel: "\<not> fails SelectSystem"
    by (auto simp: resolve_system_def split: if_splits)
  show ?thesis
  proof (cases "scalar_one_or_none (filter (\<lambda>r. ip_address r = client_ip) table)")
    case (Inl e)
    with assms sel show ?thesis by (simp add: resolve_system_def)
  next
    case (Inr res)
    show ?thesis
    proof (cases res)
      case None
      with Inr have "\<not> (\<exists>r \<in> set table. ip_address r = client_ip)"
        by (simp add: scalar_one_or_none_filter)
      with assms sel Inr None show ?thesis
        by (auto simp: resolve_system_def Let_def split: if_splits)
    next
      case (Some found)
      with Inr have f: "found \<in> set table" "ip_address found = client_ip"
        using scalar_one_or_none_Some [of "\<lambda>r. ip_address r = client_ip" table found] by simp_all
      from assms sel Inr Some have eqs: "system = found\<lparr>last_seen := utcnow 0\<rparr>"
        "table' = map (\<lambda>r. if sys_id r = sys_id found then system else r) table" "k = 1"
        by (auto simp: resolve_system_def Let_def)
      have "system \<in> set table'"
        unfolding eqs(2) using f(1) by (force simp: image_iff)
      with f eqs sel show ?thesis by auto
    qed
  qed
qed

lemma resolve_system_total:
  assumes "distinct (map ip_address table)" "\<not> fails SelectSystem" "\<not> fails FlushSystem"
  shows "\<exists>res. resolve_system fails utcnow data client_ip table = Inr res"
proof (cases "\<exists>r \<in> set table. ip_address r = client_ip")
  case False
  then show ?thesis using assms by (simp add: resolve_system_new)
next
  case True
  then obtain found where "found \<in> set table" "ip_address found = client_ip" by blast
  then have "filter (\<lambda>r. ip_address r = client_ip) table = [found]"
    using filter_key_distinct [of ip_address table found] assms(1) by simp
  then show ?thesis using assms by (simp add: resolve_system_def Let_def)
qed

lemma collect_session_Inr:
  assumes "collect_session fails utcnow data client_ip db = Inr db'"
  shows "\<exists>system table k.
     resolve_system fails utcnow data client_ip (systems db) = Inr (system, table, k) \<and>
     \<not> fails FlushCollection \<and> \<not> fails Commit \<and>
     systems db' = table \<and>
     collections db' = collections db @
       [\<lparr>col_id = next_id (map col_id (collections db)), system_id = sys_id system,
         collection_timestamp = utcnow k,
         cpu_usage_percent = usage_percent (cpu_info data)\<rparr>] \<and>
     processes db' = (case running_processes data of
         PyList entries \<Rightarrow>
           add_processes (next_id (map col_id (collections db))) entries (processes db)
       | PyDict d \<Rightarrow> processes db) \<and>
     logged_users db' = (case logged_in_users data of
         PyList entries \<Rightarrow>
           add_logged_users (next_id (map col_id (collections db))) entries (logged_users db)
       | PyDict d \<Rightarrow> logged_users db)"
  using assms
  by (auto simp: collect_session_def Let_def
      split: sum.splits if_splits prod.splits list_or_dict.splits)

lemma collect_session_total:
  assumes "resolve_system fails utcnow data client_ip (systems db) = Inr res"
    and "\<not> fails FlushCollection" "\<not> fails Commit"
  shows "\<exists>db'. collect_session fails utcnow data client_ip db = Inr db'"
  using assms by (cases res) (simp add: collect_session_def Let_def)

lemma post_collect_Inl: "post_collect tok fails utcnow request db = (Inl e, db') \<Longrightarrow> db' = db"
  by (auto simp: post_collect_def collect_data_def Let_def
      split: sum.splits json_body.splits option.splits)

lemma post_collect_Inr:
  assumes "post_collect tok fails utcnow request db = (Inr b, db')"
  shows "\<exists>header data entries.
     authorization request = Some header \<and> verify_token tok header = Inr () \<and>
     body request = Parsed data \<and> running_processes data = PyList entries \<and>
     collect_session fails utcnow data (client_ip_of request) db = Inr db' \<and>
     b = [(''status'', ''success''), (''message'', stored_message (client_ip_of request))]"
  using assms
  by (auto simp: post_collect_def collect_data_def validate_SystemData_def Let_def
      split: sum.splits list_or_dict.splits json_body.splits option.splits)

lemma post_collect_authorized:
  assumes "authorization request = Some header" "verify_token tok header = Inr ()"
    and "body request = Parsed data" "running_processes data = PyList entries"
  shows "post_collect tok fails utcnow request db =
     (case collect_session fails utcnow data (client_ip_of request) db of
        Inl e \<Rightarrow> (Inl e, db)
      | Inr db' \<Rightarrow>
          (Inr [(''status'', ''success''), (''message'', stored_message (client_ip_of request))],
           db'))"
  using assms by (simp add: post_collect_def collect_data_def validate_SystemData_def Let_def)

section \<open>Two example runs\<close>

lemma verify_example: "verify_token ''s3cret'' ''Bearer s3cret'' = Inr ()"
  by (simp add: verify_token_def startswith_def item_def)

lemma first_ingest:
  "post_collect ''s3cret'' no_faults (clock_from 100) example_request empty_store =
     (Inr [(''status'', ''success''),
           (''message'', ''Datos de 10.0.0.5 almacenados en la base de datos.'')],
      example_store)"
  by (simp add: post_collect_def example_request_def verify_example example_body_def
      validate_SystemData_def collect_data_def client_ip_of_def collect_session_def
      resolve_system_def no_faults_def empty_store_def next_id_def clock_from_def
      stored_message_def example_store_def Let_def)

lemma wf_example_store: "wf_store example_store"
  by (simp add: wf_store_def example_store_def)


lemma second_ingest:
  "post_collect ''s3cret'' no_faults (clock_from 50)
      (example_request\<lparr>body := Parsed (example_body\<lparr>data_os_name := ''Windows''\<rparr>)\<rparr>) example_store =
     (Inr [(''status'', ''success''),
           (''message'', ''Datos de 10.0.0.5 almacenados en la base de datos.'')],
      \<lparr>systems = [\<lparr>sys_id = 1, ip_address = ''10.0.0.5'', os_name = ''Linux'',
                   os_version = ''6.1'', first_seen = 100, last_seen = 50\<rparr>],
       collections = [\<lparr>col_id = 1, system_id = 1, collection_timestamp = 102,
                       cpu_usage_percent = Some 12.5\<rparr>,
                      \<lparr>col_id = 2, system_id = 1, collection_timestamp = 51,
                       cpu_usage_percent = Some 12.5\<rparr>],
       processes = [\<lparr>proc_id = 1, proc_collection_id = 1, proc_pid = 1,
                     proc_name = ''init'', proc_username = None\<rparr>,
                    \<lparr>proc_id = 2, proc_collection_id = 2, proc_pid = 1,
                     proc_name = ''init'', proc_username = None\<rparr>],
       logged_users = [\<lparr>lu_id = 1, lu_collection_id = 1, lu_username = ''root'',
                        lu_terminal = Some ''tty1''\<rparr>,
                       \<lparr>lu_id = 2, lu_collection_id = 2, lu_username = ''root'',
                        lu_terminal = Some ''tty1''\<rparr>]\<rparr>)"
  by (simp add: post_collect_def example_request_def verify_example example_body_def
      validate_SystemData_def collect_data_def client_ip_of_def collect_session_def
      resolve_system_def no_faults_def next_id_def clock_from_def
      stored_message_def example_store_def Let_def)

section \<open>Rejected credentials write nothing\<close>




section \<open>The resolved address and the success response\<close>

text \<open>
  C8 as stated fails on the message: the first ingest from \<^verbatim>\<open>10.0.0.5\<close> succeeds with the
  message \<^verbatim>\<open>"Datos de 10.0.0.5 almacenados en la base de datos."\<close>, which is not
  \<^verbatim>\<open>"10.0.0.5 stored"\<close>.
\<close>

theorem post_collect_message_counterexample:
  "fst (post_collect ''s3cret'' no_faults (clock_from 100) example_request empty_store) =
     Inr [(''status'', ''success''),
          (''message'', ''Datos de 10.0.0.5 almacenados en la base de datos.'')] \<and>
   client_ip_of example_request = ''10.0.0.5'' \<and>
   fst (post_collect ''s3cret'' no_faults (clock_from 100) example_request empty_store) \<noteq>
     Inr [(''status'', ''success''),
          (''message'', client_ip_of example_request @ '' stored'')]"
  unfolding first_ingest by (simp add: client_ip_of_def example_request_def)

text \<open>
  C8, amended. For every successful ingest the resolved address is the value of the
  forwarded-address header when the header is present and the peer address otherwise; the
  response has status 201 and the body \<^verbatim>\<open>{"status": "success", "message": "Datos de
  <address> almacenados en la base de datos."}\<close>; and the new collection belongs to a host
  row with that address.
\<close>

theorem post_collect_response:
  assumes "post_collect API_TOKEN fails utcnow request db = (Inr b, db')"
  shows "\<exists>addr c r.
     (case x_forwarded_for request of Some v \<Rightarrow> addr = v | None \<Rightarrow> addr = client_host request) \<and>
     response_status 201 (fst (post_collect API_TOKEN fails utcnow request db)) = 201 \<and>
     b = [(''status'', ''success''),
          (''message'', ''Datos de '' @ addr @ '' almacenados en la base de datos.'')] \<and>
     collections db' = collections db @ [c] \<and>
     r \<in> set (systems db') \<and> sys_id r = system_id c \<and> ip_address r = addr"
proof -
  let ?addr = "client_ip_of request"
  from post_collect_Inr [OF assms] obtain data where
    sess: "collect_session fails utcnow data ?addr db = Inr db'"
    and b: "b = [(''status'', ''success''), (''message'', stored_message ?addr)]"
    by blast
  from collect_session_Inr [OF sess] obtain system table k where
    res: "resolve_system fails utcnow data ?addr (systems db) = Inr (system, table, k)"
    and sys: "systems db' = table"
    and col: "collections db' = collections db @
       [\<lparr>col_id = next_id (map col_id (collections db)), system_id = sys_id system,
         collection_timestamp = utcnow k,
         cpu_usage_percent = usage_percent (cpu_info data)\<rparr>]"
    by blast
  from resolve_system_Inr [OF res] have "system \<in> set table" "ip_address system = ?addr"
    by simp_all
  moreover have "case x_forwarded_for request of Some v \<Rightarrow> ?addr = v
       | None \<Rightarrow> ?addr = client_host request"
    by (simp add: client_ip_of_def split: option.splits)
  moreover have "response_status 201 (fst (post_collect API_TOKEN fails utcnow request db)) = 201"
    by (simp add: assms response_status_def)
  ultimately show ?thesis
    using b sys col
    by (intro exI [of _ ?addr] exI [of _ system]
        exI [of _ "\<lparr>col_id = next_id (map col_id (collections db)), system_id = sys_id system,
         collection_timestamp = utcnow k,
         cpu_usage_percent = usage_percent (cpu_info data)\<rparr>"])
       (simp add: stored_message_def)
qed

theorem post_collect_response_witness:
  "post_collect ''s3cret'' no_faults (clock_from 100)
      (example_request\<lparr>x_forwarded_for := Some ''192.0.2.7''\<rparr>) empty_store =
     (Inr [(''status'', ''success''),
           (''message'', ''Datos de 192.0.2.7 almacenados en la base de datos.'')],
      snd (post_collect ''s3cret'' no_faults (clock_from 100)
        (example_request\<lparr>x_forwarded_for := Some ''192.0.2.7''\<rparr>) empty_store)) \<and>
   map ip_address (systems (snd (post_collect ''s3cret'' no_faults (clock_from 100)
        (example_request\<lparr>x_forwarded_for := Some ''192.0.2.7''\<rparr>) empty_store)))
     = [''192.0.2.7'']"
  using post_collect_response [of "''s3cret''" no_faults "clock_from 100"
      "example_request\<lparr>x_forwarded_for := Some ''192.0.2.7''\<rparr>" empty_store
      "[(''status'', ''success''),
        (''message'', ''Datos de 192.0.2.7 almacenados en la base de datos.'')]"
      "snd (post_collect ''s3cret'' no_faults (clock_from 100)
        (example_request\<lparr>x_forwarded_for := Some ''192.0.2.7''\<rparr>) empty_store)"]
  by (simp add: post_collect_def example_request_def verify_example example_body_def
      validate_SystemData_def collect_data_def client_ip_of_def collect_session_def
      resolve_system_def no_faults_def empty_store_def next_id_def clock_from_def
      stored_message_def Let_def)

section \<open>The rows written by a successful ingest\<close>

lemma collect_session_rows:
  assumes "collect_session fails utcnow data client_ip db = Inr db'"
  shows "\<exists>c r procs lusers.
     collections db' = collections db @ [c] \<and>
     col_id c \<notin> set (map col_id (collections db)) \<and>
     cpu_usage_percent c = usage_percent (cpu_info data) \<and>
     r \<in> set (systems db') \<and> sys_id r = system_id c \<and> ip_address r = client_ip \<and>
     processes db' = processes db @ procs \<and>
     map (\<lambda>r. (proc_collection_id r, proc_pid r, proc_name r, proc_username r)) procs
       = (case running_processes data of
            PyList entries \<Rightarrow>
              map (\<lambda>p. (col_id c, pid p, name p, username p)) (process_infos entries)
          | PyDict d \<Rightarrow> []) \<and>
     logged_users db' = logged_users db @ lusers \<and>
     map (\<lambda>r. (lu_collection_id r, lu_username r, lu_terminal r)) lusers
       = (case logged_in_users data of
            PyList entries \<Rightarrow> map (\<lambda>u. (col_id c, user u, terminal u)) entries
          | PyDict d \<Rightarrow> [])"
proof -
  let ?cid = "next_id (map col_id (collections db))"
  from collect_session_Inr [OF assms] obtain system table k where
    res: "resolve_system fails utcnow data client_ip (systems db) = Inr (system, table, k)"
    and sys: "systems db' = table"
    and col: "collections db' = collections db @
       [\<lparr>col_id = ?cid, system_id = sys_id system, collection_timestamp = utcnow k,
         cpu_usage_percent = usage_percent (cpu_info data)\<rparr>]"
    and procs: "processes db' = (case running_processes data of
         PyList entries \<Rightarrow> add_processes ?cid entries (processes db)
       | PyDict d \<Rightarrow> processes db)"
    and users: "logged_users db' = (case logged_in_users data of
         PyList entries \<Rightarrow> add_logged_users ?cid entries (logged_users db)
       | PyDict d \<Rightarrow> logged_users db)"
    by blast
  let ?c = "\<lparr>col_id = ?cid, system_id = sys_id system, collection_timestamp = utcnow k,
         cpu_usage_percent = usage_percent (cpu_info data)\<rparr>"
  from resolve_system_Inr [OF res] have r: "system \<in> set table" "ip_address system = client_ip"
    by simp_all
  have "\<exists>rows. processes db' = processes db @ rows \<and>
     map (\<lambda>r. (proc_collection_id r, proc_pid r, proc_name r, proc_username r)) rows
       = (case running_processes data of
            PyList entries \<Rightarrow>
              map (\<lambda>p. (?cid, pid p, name p, username p)) (process_infos entries)
          | PyDict d \<Rightarrow> [])"
  proof (cases "running_processes data")
    case (PyList entries)
    with procs add_processes_append [of ?cid entries "processes db"] show ?thesis by simp
  next
    case (PyDict d)
    with procs show ?thesis by simp
  qed
  then obtain rows where rows: "processes db' = processes db @ rows"
     "map (\<lambda>r. (proc_collection_id r, proc_pid r, proc_name r, proc_username r)) rows
       = (case running_processes data of
            PyList entries \<Rightarrow>
              map (\<lambda>p. (?cid, pid p, name p, username p)) (process_infos entries)
          | PyDict d \<Rightarrow> [])"
    by blast
  have "\<exists>urows. logged_users db' = logged_users db @ urows \<and>
     map (\<lambda>r. (lu_collection_id r, lu_username r, lu_terminal r)) urows
       = (case logged_in_users data of
            PyList entries \<Rightarrow> map (\<lambda>u. (?cid, user u, terminal u)) entries
          | PyDict d \<Rightarrow> [])"
  proof (cases "logged_in_users data")
    case (PyList entries)
    with users add_logged_users_append [of ?cid entries "logged_users db"] show ?thesis by simp
  next
    case (PyDict d)
    with users show ?thesis by simp
  qed
  then obtain urows where urows: "logged_users db' = logged_users db @ urows"
     "map (\<lambda>r. (lu_collection_id r, lu_username r, lu_terminal r)) urows
       = (case logged_in_users data of
            PyList entries \<Rightarrow> map (\<lambda>u. (?cid, user u, terminal u)) entries
          | PyDict d \<Rightarrow> [])"
    by blast
  have fresh: "?cid \<notin> set (map col_id (collections db))"
    by (rule next_id_notin)
  show ?thesis
    apply (rule exI [of _ ?c])
    apply (rule exI [of _ system])
    apply (rule exI [of _ rows])
    apply (rule exI [of _ urows])
    using col sys r rows urows fresh
    apply (simp cong: list_or_dict.case_cong)
    done
qed

text \<open>
  C4. Every successful ingest appends exactly one collection; its id is new, its owner
  is a host row with the resolved address, and its CPU usage is the payload's
  \<^verbatim>\<open>usage_percent\<close> (\<open>None\<close> when the payload has none). The process list is a sequence; the
  new process rows are the entries of the expected shape, in order, with their pid, name
  and username, all attached to the new collection, and the other entries leave no row.
  The new logged-user rows are the entries of \<^verbatim>\<open>logged_in_users\<close> when it is a sequence,
  and none when it is a mapping.
\<close>

theorem post_collect_rows:
  assumes "post_collect API_TOKEN fails utcnow request db = (Inr b, db')"
  shows "\<exists>c r data entries procs lusers.
     body request = Parsed data \<and>
     collections db' = collections db @ [c] \<and>
     col_id c \<notin> set (map col_id (collections db)) \<and>
     cpu_usage_percent c = usage_percent (cpu_info data) \<and>
     r \<in> set (systems db') \<and> sys_id r = system_id c \<and>
     ip_address r = client_ip_of request \<and>
     running_processes data = PyList entries \<and>
     processes db' = processes db @ procs \<and>
     map (\<lambda>r. (proc_collection_id r, proc_pid r, proc_name r, proc_username r)) procs
       = map (\<lambda>p. (col_id c, pid p, name p, username p)) (process_infos entries) \<and>
     logged_users db' = logged_users db @ lusers \<and>
     map (\<lambda>r. (lu_collection_id r, lu_username r, lu_terminal r)) lusers
       = (case logged_in_users data of
            PyList us \<Rightarrow> map (\<lambda>u. (col_id c, user u, terminal u)) us
          | PyDict d \<Rightarrow> [])"
proof -
  from post_collect_Inr [OF assms] obtain data entries where
    data: "body request = Parsed data"
    and entries: "running_processes data = PyList entries"
    and sess: "collect_session fails utcnow data (client_ip_of request) db = Inr db'"
    by blast
  from collect_session_rows [OF sess] entries data show ?thesis
    by (simp only: list_or_dict.case) blast
qed

theorem post_collect_rows_witness:
  "post_collect ''s3cret'' no_faults (clock_from 100) example_request empty_store =
     (Inr [(''status'', ''success''),
           (''message'', ''Datos de 10.0.0.5 almacenados en la base de datos.'')],
      example_store) \<and>
   map cpu_usage_percent (collections example_store) = [usage_percent (cpu_info example_body)] \<and>
   map (\<lambda>r. (proc_collection_id r, proc_pid r, proc_name r, proc_username r))
       (processes example_store) = [(1, 1, ''init'', None)] \<and>
   map (\<lambda>r. (lu_collection_id r, lu_username r, lu_terminal r))
       (logged_users example_store) = [(1, ''root'', Some ''tty1'')]"
  using post_collect_rows [OF first_ingest]
  by (simp add: first_ingest example_store_def example_body_def)

section \<open>Ingest from a known address\<close>

lemma map_conditional_update:
  "(\<And>r. f (g r) = f r) \<Longrightarrow> map f (map (\<lambda>r. if P r then g r else r) xs) = map f xs"
  by (induction xs) auto

lemma post_collect_systems_existing:
  assumes "wf_store db" "found \<in> set (systems db)" "ip_address found = client_ip_of request"
    and "post_collect API_TOKEN fails utcnow request db = (Inr b, db')"
  shows "systems db' =
     map (\<lambda>r. if ip_address r = client_ip_of request then r\<lparr>last_seen := utcnow 0\<rparr> else r)
       (systems db)"
proof -
  from post_collect_Inr [OF assms(4)] obtain data where
    sess: "collect_session fails utcnow data (client_ip_of request) db = Inr db'"
    by blast
  from collect_session_Inr [OF sess] obtain system table k where
    res: "resolve_system fails utcnow data (client_ip_of request) (systems db)
        = Inr (system, table, k)"
    and sys: "systems db' = table"
    by blast
  from resolve_system_Inr [OF res] have "\<not> fails SelectSystem" by simp
  moreover from assms(1) have "distinct (map sys_id (systems db))"
    "distinct (map ip_address (systems db))"
    by (simp_all add: wf_store_def)
  ultimately have "resolve_system fails utcnow data (client_ip_of request) (systems db)
     = Inr (found\<lparr>last_seen := utcnow 0\<rparr>,
          map (\<lambda>r. if ip_address r = client_ip_of request then r\<lparr>last_seen := utcnow 0\<rparr> else r)
            (systems db), 1)"
    using assms(2,3) by (intro resolve_system_existing)
  with res sys show ?thesis by simp
qed

text \<open>
  C6. When a host row with the resolved address exists (in a store that satisfies the
  table constraints), a successful ingest leaves the \<^verbatim>\<open>systems\<close> table with the same
  rows in the same order, except that the row of that address has \<^verbatim>\<open>last_seen\<close> set to
  the clock reading: no row is added, and ids, addresses, OS names, OS versions and
  \<^verbatim>\<open>first_seen\<close> are unchanged, whatever OS fields the payload carries.
\<close>

theorem post_collect_existing_host:
  assumes "wf_store db" "found \<in> set (systems db)" "ip_address found = client_ip_of request"
    and "post_collect API_TOKEN fails utcnow request db = (Inr b, db')"
  shows "systems db' =
     map (\<lambda>r. if ip_address r = client_ip_of request then r\<lparr>last_seen := utcnow 0\<rparr> else r)
       (systems db) \<and>
     length (systems db') = length (systems db) \<and>
     map sys_id (systems db') = map sys_id (systems db) \<and>
     map ip_address (systems db') = map ip_address (systems db) \<and>
     map os_name (systems db') = map os_name (systems db) \<and>
     map os_version (systems db') = map os_version (systems db) \<and>
     map first_seen (systems db') = map first_seen (systems db)"
proof -
  let ?P = "\<lambda>r. ip_address r = client_ip_of request"
  let ?g = "\<lambda>r. r\<lparr>last_seen := utcnow 0\<rparr>"
  have eq: "systems db' = map (\<lambda>r. if ?P r then ?g r else r) (systems db)"
    by (rule post_collect_systems_existing [OF assms])
  have "length (systems db') = length (systems db)"
    unfolding eq by simp
  moreover have "map sys_id (systems db') = map sys_id (systems db)"
    unfolding eq by (rule map_conditional_update) simp
  moreover have "map ip_address (systems db') = map ip_address (systems db)"
    unfolding eq by (rule map_conditional_update) simp
  moreover have "map os_name (systems db') = map os_name (systems db)"
    unfolding eq by (rule map_conditional_update) simp
  moreover have "map os_version (systems db') = map os_version (systems db)"
    unfolding eq by (rule map_conditional_update) simp
  moreover have "map first_seen (systems db') = map first_seen (systems db)"
    unfolding eq by (rule map_conditional_update) simp
  ultimately show ?thesis using eq by simp
qed


theorem post_collect_existing_host_witness:
  "wf_store example_store \<and>
   body (example_request\<lparr>body := Parsed (example_body\<lparr>data_os_name := ''Windows''\<rparr>)\<rparr>)
     = Parsed (example_body\<lparr>data_os_name := ''Windows''\<rparr>) \<and>
   map os_name (systems example_store) = [''Linux''] \<and>
   map os_name (systems (snd (post_collect ''s3cret'' no_faults (clock_from 50)
      (example_request\<lparr>body := Parsed (example_body\<lparr>data_os_name := ''Windows''\<rparr>)\<rparr>) example_store)))
     = [''Linux''] \<and>
   map last_seen (systems (snd (post_collect ''s3cret'' no_faults (clock_from 50)
      (example_request\<lparr>body := Parsed (example_body\<lparr>data_os_name := ''Windows''\<rparr>)\<rparr>) example_store)))
     = [clock_from 50 0]"
proof -
  let ?found = "\<lparr>sys_id = 1, ip_address = ''10.0.0.5'', os_name = ''Linux'',
           os_version = ''6.1'', first_seen = 100, last_seen = 101\<rparr>"
  let ?request = "example_request\<lparr>body := Parsed (example_body\<lparr>data_os_name := ''Windows''\<rparr>)\<rparr>"
  have found: "?found \<in> set (systems example_store)"
    by (simp add: example_store_def)
  have ip: "ip_address ?found = client_ip_of ?request"
    by (simp add: client_ip_of_def example_request_def)
  have os: "map os_name (systems example_store) = [''Linux'']"
    by (simp add: example_store_def)
  have ls: "map (\<lambda>r. if ip_address r = client_ip_of ?request
                     then r\<lparr>last_seen := clock_from 50 0\<rparr> else r) (systems example_store)
     = [?found\<lparr>last_seen := clock_from 50 0\<rparr>]"
    by (simp add: example_store_def client_ip_of_def example_request_def)
  note t = post_collect_existing_host [OF wf_example_store found ip second_ingest]
  have "body ?request = Parsed (example_body\<lparr>data_os_name := ''Windows''\<rparr>)"
    by simp
  moreover from t os have "map os_name (systems (snd (post_collect ''s3cret'' no_faults
      (clock_from 50) ?request example_store))) = [''Linux'']"
    unfolding second_ingest snd_conv by simp
  moreover from t ls have "map last_seen (systems (snd (post_collect ''s3cret'' no_faults
      (clock_from 50) ?request example_store))) = [clock_from 50 0]"
    unfolding second_ingest snd_conv by simp
  ultimately show ?thesis using wf_example_store os by simp
qed

section \<open>One transaction per ingest\<close>

lemma scalar_one_or_none_Inl: "scalar_one_or_none xs = Inl e \<Longrightarrow> e = InternalServerError"
  by (cases xs rule: scalar_one_or_none.cases) auto

lemma resolve_system_Inl:
  "resolve_system fails utcnow data client_ip table = Inl e \<Longrightarrow> e = InternalServerError"
  by (auto simp: resolve_system_def Let_def split: if_splits sum.splits option.splits
      dest: scalar_one_or_none_Inl)

lemma collect_session_Inl:
  assumes "collect_session fails utcnow data client_ip db = Inl e"
  shows "e = InternalServerError"
proof (cases "resolve_system fails utcnow data client_ip (systems db)")
  case (Inl e')
  with assms have "e = e'" by (simp add: collect_session_def)
  with Inl show ?thesis by (simp add: resolve_system_Inl)
next
  case (Inr res)
  obtain system table k where "res = (system, table, k)" by (cases res) 
  with Inr assms show ?thesis
    by (simp add: collect_session_def Let_def split: if_splits)
qed


lemma collect_session_fault:
  assumes "fails SelectSystem \<or> fails FlushCollection \<or> fails Commit \<or>
     (fails FlushSystem \<and> \<not> (\<exists>r \<in> set (systems db). ip_address r = client_ip))"
  shows "collect_session fails utcnow data client_ip db = Inl InternalServerError"
proof (cases "collect_session fails utcnow data client_ip db")
  case (Inl e)
  then show ?thesis using collect_session_Inl [of fails utcnow data client_ip db e] by simp
next
  case (Inr db')
  from collect_session_Inr [OF Inr] obtain system table k where
    res: "resolve_system fails utcnow data client_ip (systems db) = Inr (system, table, k)"
    and ok: "\<not> fails FlushCollection" "\<not> fails Commit"
    by blast
  from resolve_system_Inr [OF res]
  have "\<not> fails SelectSystem"
    and "\<not> fails FlushSystem \<or> (\<exists>r \<in> set (systems db). ip_address r = client_ip)"
    by blast+
  with ok assms have False by blast
  then show ?thesis ..
qed

lemma tagged_rows:
  "map (\<lambda>r. (f r, g r)) xs = map (\<lambda>p. (c, h p)) ys \<Longrightarrow>
     length xs = length ys \<and> (\<forall>x \<in> set xs. f x = c)"
proof (induction xs arbitrary: ys)
  case Nil
  then show ?case by simp
next
  case (Cons x xs)
  then obtain y ys' where ys: "ys = y # ys'" by (cases ys) auto
  with Cons.prems have "f x = c" "map (\<lambda>r. (f r, g r)) xs = map (\<lambda>p. (c, h p)) ys'"
    by simp_all
  with Cons.IH [of ys'] ys show ?case by simp
qed

text \<open>
  C3. The writes of an ingest reach the database together or not at all. Whenever the
  request ends in an error, the store is the store before the request. Whenever it
  succeeds, the store holds the new collection together with all its process and
  logged-user rows. And when the request is authorized and well-formed, a failure of any
  database operation it reaches (the host lookup, the flush of a new host row, the flush
  of the collection, the commit) gives the 500 error and leaves the store unchanged.
\<close>

theorem post_collect_atomic:
  "(\<forall>e. fst (post_collect API_TOKEN fails utcnow request db) = Inl e \<longrightarrow>
        snd (post_collect API_TOKEN fails utcnow request db) = db) \<and>
   (\<forall>b. fst (post_collect API_TOKEN fails utcnow request db) = Inr b \<longrightarrow>
      (\<exists>c procs lusers data.
         body request = Parsed data \<and>
         collections (snd (post_collect API_TOKEN fails utcnow request db))
           = collections db @ [c] \<and>
         processes (snd (post_collect API_TOKEN fails utcnow request db))
           = processes db @ procs \<and>
         (\<forall>p \<in> set procs. proc_collection_id p = col_id c) \<and>
         length procs = (case running_processes data of
                           PyList entries \<Rightarrow> length (process_infos entries)
                         | PyDict d \<Rightarrow> 0) \<and>
         logged_users (snd (post_collect API_TOKEN fails utcnow request db))
           = logged_users db @ lusers \<and>
         (\<forall>u \<in> set lusers. lu_collection_id u = col_id c) \<and>
         length lusers = (case logged_in_users data of
                            PyList us \<Rightarrow> length us
                          | PyDict d \<Rightarrow> 0))) \<and>
   (authorization request = Some header \<and> verify_token API_TOKEN header = Inr () \<and>
    body request = Parsed data \<and> validate_SystemData data = Inr data \<and>
    (fails SelectSystem \<or> fails FlushCollection \<or> fails Commit \<or>
     (fails FlushSystem \<and>
      \<not> (\<exists>r \<in> set (systems db). ip_address r = client_ip_of request))) \<longrightarrow>
    post_collect API_TOKEN fails utcnow request db = (Inl InternalServerError, db))"
proof (intro conjI allI impI)
  fix e assume "fst (post_collect API_TOKEN fails utcnow request db) = Inl e"
  then have "post_collect API_TOKEN fails utcnow request db
      = (Inl e, snd (post_collect API_TOKEN fails utcnow request db))"
    by (metis prod.collapse)
  then show "snd (post_collect API_TOKEN fails utcnow request db) = db"
    by (rule post_collect_Inl)
next
  fix b assume "fst (post_collect API_TOKEN fails utcnow request db) = Inr b"
  then have run: "post_collect API_TOKEN fails utcnow request db
      = (Inr b, snd (post_collect API_TOKEN fails utcnow request db))"
    by (metis prod.collapse)
  let ?db' = "snd (post_collect API_TOKEN fails utcnow request db)"
  from post_collect_Inr [OF run] obtain data where
    data: "body request = Parsed data"
    and sess: "collect_session fails utcnow data (client_ip_of request) db = Inr ?db'"
    by blast
  from collect_session_rows [OF sess] obtain c procs lusers where
    col: "collections ?db' = collections db @ [c]"
    and procs: "processes ?db' = processes db @ procs"
      "map (\<lambda>r. (proc_collection_id r, proc_pid r, proc_name r, proc_username r)) procs
       = (case running_processes data of
            PyList entries \<Rightarrow>
              map (\<lambda>p. (col_id c, pid p, name p, username p)) (process_infos entries)
          | PyDict d \<Rightarrow> [])"
    and lusers: "logged_users ?db' = logged_users db @ lusers"
      "map (\<lambda>r. (lu_collection_id r, lu_username r, lu_terminal r)) lusers
       = (case logged_in_users data of
            PyList entries \<Rightarrow> map (\<lambda>u. (col_id c, user u, terminal u)) entries
          | PyDict d \<Rightarrow> [])"
    by blast
  have p: "(\<forall>p \<in> set procs. proc_collection_id p = col_id c) \<and>
         length procs = (case running_processes data of
                           PyList entries \<Rightarrow> length (process_infos entries)
                         | PyDict d \<Rightarrow> 0)"
  proof (cases "running_processes data")
    case (PyList entries)
    with procs(2) tagged_rows [of proc_collection_id
        "\<lambda>r. (proc_pid r, proc_name r, proc_username r)" procs "col_id c"
        "\<lambda>p. (pid p, name p, username p)" "process_infos entries"]
    show ?thesis by simp
  next
    case (PyDict d)
    with procs(2) show ?thesis by simp
  qed
  have u: "(\<forall>u \<in> set lusers. lu_collection_id u = col_id c) \<and>
         length lusers = (case logged_in_users data of
                            PyList us \<Rightarrow> length us
                          | PyDict d \<Rightarrow> 0)"
  proof (cases "logged_in_users data")
    case (PyList us)
    with lusers(2) tagged_rows [of lu_collection_id
        "\<lambda>r. (lu_username r, lu_terminal r)" lusers "col_id c"
        "\<lambda>u. (user u, terminal u)" us]
    show ?thesis by simp
  next
    case (PyDict d)
    with lusers(2) show ?thesis by simp
  qed
  from data col procs(1) lusers(1) p u
  show "\<exists>c procs lusers data.
         body request = Parsed data \<and>
         collections ?db' = collections db @ [c] \<and>
         processes ?db' = processes db @ procs \<and>
         (\<forall>p \<in> set procs. proc_collection_id p = col_id c) \<and>
         length procs = (case running_processes data of
                           PyList entries \<Rightarrow> length (process_infos entries)
                         | PyDict d \<Rightarrow> 0) \<and>
         logged_users ?db' = logged_users db @ lusers \<and>
         (\<forall>u \<in> set lusers. lu_collection_id u = col_id c) \<and>
         length lusers = (case logged_in_users data of
                            PyList us \<Rightarrow> length us
                          | PyDict d \<Rightarrow> 0)"
    by blast
next
  assume a: "authorization request = Some header \<and> verify_token API_TOKEN header = Inr () \<and>
    body request = Parsed data \<and> validate_SystemData data = Inr data \<and>
    (fails SelectSystem \<or> fails FlushCollection \<or> fails Commit \<or>
     (fails FlushSystem \<and>
      \<not> (\<exists>r \<in> set (systems db). ip_address r = client_ip_of request)))"
  then have "collect_session fails utcnow data (client_ip_of request) db
      = Inl InternalServerError"
    by (intro collect_session_fault) blast
  with a show "post_collect API_TOKEN fails utcnow request db = (Inl InternalServerError, db)"
    by (simp add: post_collect_def collect_data_def Let_def)
qed

theorem post_collect_atomic_witness:
  "authorization example_request = Some ''Bearer s3cret'' \<and>
   verify_token ''s3cret'' ''Bearer s3cret'' = Inr () \<and>
   body example_request = Parsed example_body \<and>
   validate_SystemData example_body = Inr example_body \<and>
   commit_fails Commit \<and>
   post_collect ''s3cret'' commit_fails (clock_from 200) example_request example_store
     = (Inl InternalServerError, example_store)"
proof -
  have h: "authorization example_request = Some ''Bearer s3cret''"
    and d: "body example_request = Parsed example_body"
    by (simp_all add: example_request_def)
  have s: "validate_SystemData example_body = Inr example_body"
    by (simp add: validate_SystemData_def example_body_def)
  have f: "commit_fails Commit"
    by (simp add: commit_fails_def)
  from post_collect_atomic [of "''s3cret''" commit_fails "clock_from 200" example_request
      example_store "''Bearer s3cret''" example_body] h verify_example d s f
  have "post_collect ''s3cret'' commit_fails (clock_from 200) example_request example_store
     = (Inl InternalServerError, example_store)"
    by blast
  with h verify_example d s f show ?thesis by simp
qed

section \<open>A process list given as a mapping\<close>

text \<open>
  C2 as stated fails: an authorized request whose \<^verbatim>\<open>running_processes\<close> is an object is
  answered with the validation error (status 422), not with success.
\<close>

theorem post_collect_mapping_counterexample:
  "authorization (example_request\<lparr>body := Parsed mapping_body\<rparr>) = Some ''Bearer s3cret'' \<and>
   verify_token ''s3cret'' ''Bearer s3cret'' = Inr () \<and>
   running_processes mapping_body = PyDict [(''error'', ''denied'')] \<and>
   post_collect ''s3cret'' no_faults (clock_from 100)
       (example_request\<lparr>body := Parsed mapping_body\<rparr>) empty_store
     = (Inl RequestValidationError, empty_store) \<and>
   status_code RequestValidationError = 422"
  by (simp add: post_collect_def example_request_def verify_example mapping_body_def
      validate_SystemData_def)

text \<open>
  C2, amended. An authorized request whose \<^verbatim>\<open>running_processes\<close> is a mapping is rejected
  as a schema violation (422) and writes nothing. An authorized request whose
  \<^verbatim>\<open>running_processes\<close> is a sequence without any entry of the expected shape (empty, or
  unstructured entries only) succeeds, when no database operation fails and addresses
  are unique, and creates a collection and no process row.
\<close>

theorem post_collect_process_mapping:
  "(authorization request = Some header \<and> verify_token API_TOKEN header = Inr () \<and>
    body request = Parsed data \<and> running_processes data = PyDict d \<longrightarrow>
      post_collect API_TOKEN fails utcnow request db = (Inl RequestValidationError, db) \<and>
      response_status 201 (fst (post_collect API_TOKEN fails utcnow request db)) = 422) \<and>
   (authorization request = Some header \<and> verify_token API_TOKEN header = Inr () \<and>
    body request = Parsed data \<and> running_processes data = PyList entries \<and>
    process_infos entries = [] \<and>
    distinct (map ip_address (systems db)) \<and> (\<forall>op. \<not> fails op) \<longrightarrow>
      (\<exists>b db'. post_collect API_TOKEN fails utcnow request db = (Inr b, db') \<and>
         processes db' = processes db \<and>
         length (collections db') = Suc (length (collections db))))"
proof (rule conjI; rule impI)
  assume "authorization request = Some header \<and> verify_token API_TOKEN header = Inr () \<and>
    body request = Parsed data \<and> running_processes data = PyDict d"
  then have "post_collect API_TOKEN fails utcnow request db = (Inl RequestValidationError, db)"
    by (simp add: post_collect_def validate_SystemData_def)
  then show "post_collect API_TOKEN fails utcnow request db = (Inl RequestValidationError, db) \<and>
      response_status 201 (fst (post_collect API_TOKEN fails utcnow request db)) = 422"
    by (simp add: response_status_def)
next
  assume a: "authorization request = Some header \<and> verify_token API_TOKEN header = Inr () \<and>
    body request = Parsed data \<and> running_processes data = PyList entries \<and>
    process_infos entries = [] \<and>
    distinct (map ip_address (systems db)) \<and> (\<forall>op. \<not> fails op)"
  let ?ip = "client_ip_of request"
  from a obtain res where
    "resolve_system fails utcnow data ?ip (systems db) = Inr res"
    using resolve_system_total [of "systems db" fails utcnow data ?ip] by blast
  then obtain db' where
    sess: "collect_session fails utcnow data ?ip db = Inr db'"
    using collect_session_total [of fails utcnow data ?ip db res] a by blast
  from a sess have run: "post_collect API_TOKEN fails utcnow request db =
     (Inr [(''status'', ''success''), (''message'', stored_message ?ip)], db')"
    by (simp add: post_collect_authorized [of request header API_TOKEN data entries])
  from collect_session_rows [OF sess] obtain c procs where
    col: "collections db' = collections db @ [c]"
    and procs: "processes db' = processes db @ procs"
      "map (\<lambda>r. (proc_collection_id r, proc_pid r, proc_name r, proc_username r)) procs
       = (case running_processes data of
            PyList entries \<Rightarrow>
              map (\<lambda>p. (col_id c, pid p, name p, username p)) (process_infos entries)
          | PyDict d \<Rightarrow> [])"
    by blast
  from procs(2) a have "procs = []" by simp
  with procs(1) col run
  show "\<exists>b db'. post_collect API_TOKEN fails utcnow request db = (Inr b, db') \<and>
         processes db' = processes db \<and>
         length (collections db') = Suc (length (collections db))"
    by simp
qed


theorem post_collect_process_mapping_witness:
  "post_collect ''s3cret'' no_faults (clock_from 100)
       (example_request\<lparr>body := Parsed mapping_body\<rparr>) example_store
     = (Inl RequestValidationError, example_store) \<and>
   fst (post_collect ''s3cret'' no_faults (clock_from 100)
       (example_request\<lparr>body := Parsed dict_only_body\<rparr>) example_store)
     = Inr [(''status'', ''success''),
            (''message'', ''Datos de 10.0.0.5 almacenados en la base de datos.'')] \<and>
   processes (snd (post_collect ''s3cret'' no_faults (clock_from 100)
       (example_request\<lparr>body := Parsed dict_only_body\<rparr>) example_store))
     = processes example_store"
proof -
  have h: "authorization (example_request\<lparr>body := Parsed mapping_body\<rparr>)
      = Some ''Bearer s3cret''"
    by (simp add: example_request_def)
  have b: "body (example_request\<lparr>body := Parsed mapping_body\<rparr>) = Parsed mapping_body"
    by simp
  have m: "running_processes mapping_body = PyDict [(''error'', ''denied'')]"
    by (simp add: mapping_body_def)
  from post_collect_process_mapping [where API_TOKEN = "''s3cret''"
      and request = "example_request\<lparr>body := Parsed mapping_body\<rparr>"
      and header = "''Bearer s3cret''" and data = mapping_body
      and d = "[(''error'', ''denied'')]" and fails = no_faults and utcnow = "clock_from 100"
      and db = example_store] h verify_example b m
  have "post_collect ''s3cret'' no_faults (clock_from 100)
       (example_request\<lparr>body := Parsed mapping_body\<rparr>) example_store
     = (Inl RequestValidationError, example_store)"
    by blast
  moreover have ok: "fst (post_collect ''s3cret'' no_faults (clock_from 100)
       (example_request\<lparr>body := Parsed dict_only_body\<rparr>) example_store)
     = Inr [(''status'', ''success''),
            (''message'', ''Datos de 10.0.0.5 almacenados en la base de datos.'')]"
    by (simp add: post_collect_def example_request_def verify_example example_body_def
      dict_only_body_def validate_SystemData_def collect_data_def client_ip_of_def
      collect_session_def resolve_system_def no_faults_def next_id_def clock_from_def
      stored_message_def example_store_def Let_def)
  moreover have "processes (snd (post_collect ''s3cret'' no_faults (clock_from 100)
       (example_request\<lparr>body := Parsed dict_only_body\<rparr>) example_store))
     = processes example_store"
  proof -
    have h': "authorization (example_request\<lparr>body := Parsed dict_only_body\<rparr>)
        = Some ''Bearer s3cret''"
      by (simp add: example_request_def)
    have b': "body (example_request\<lparr>body := Parsed dict_only_body\<rparr>) = Parsed dict_only_body"
      by simp
    have l: "running_processes dict_only_body = PyList [IsDict [(''error'', ''denied'')]]"
      by (simp add: dict_only_body_def)
    have e: "process_infos [IsDict [(''error'', ''denied'')]] = []"
      by simp
    have u: "distinct (map ip_address (systems example_store))"
      by (simp add: example_store_def)
    have f: "\<forall>op. \<not> no_faults op"
      by (simp add: no_faults_def)
    from post_collect_process_mapping [where API_TOKEN = "''s3cret''"
        and request = "example_request\<lparr>body := Parsed dict_only_body\<rparr>"
        and header = "''Bearer s3cret''" and data = dict_only_body
        and entries = "[IsDict [(''error'', ''denied'')]]" and fails = no_faults
        and utcnow = "clock_from 100" and db = example_store] h' verify_example b' l e u f
    obtain b db' where "post_collect ''s3cret'' no_faults (clock_from 100)
        (example_request\<lparr>body := Parsed dict_only_body\<rparr>) example_store = (Inr b, db')"
      and "processes db' = processes example_store"
      by blast
    then show ?thesis by simp
  qed
  ultimately show ?thesis by simp
qed

section \<open>The last-seen timestamp\<close>




section \<open>The query handler: not found\<close>

lemma busy_recent:
  "map (project busy_store) (recent_collections ''10.0.0.5'' busy_store) =
     [\<lparr>item_timestamp = 50, cpu_usage = Some 6, item_processes = [(1, ''init'')],
       users = [''root'']\<rparr>,
      \<lparr>item_timestamp = 40, cpu_usage = Some 7, item_processes = [], users = []\<rparr>,
      \<lparr>item_timestamp = 30, cpu_usage = None, item_processes = [], users = []\<rparr>,
      \<lparr>item_timestamp = 30, cpu_usage = Some 5, item_processes = [], users = []\<rparr>,
      \<lparr>item_timestamp = 20, cpu_usage = Some 3, item_processes = [], users = []\<rparr>]"
  by (simp add: recent_collections_def collections_of_def busy_store_def project_def)

text \<open>
  C1 as stated fails in its second half: for a store that has a host row for
  \<^verbatim>\<open>10.0.0.9\<close> and no collection, the query is answered with the 404 error, not with
  an empty array.
\<close>

theorem query_data_empty_host_counterexample:
  "map ip_address (systems host_only_store) = [''10.0.0.9''] \<and>
   collections host_only_store = [] \<and>
   query_data no_faults ''10.0.0.9'' host_only_store =
     Inl (HTTPException 404 ''No se encontraron datos para la IP: 10.0.0.9'') \<and>
   query_data no_faults ''10.0.0.9'' host_only_store \<noteq> Inr []"
  by (simp add: query_data_def scalars_all_def no_faults_def recent_collections_def
      collections_of_def host_only_store_def no_data_detail_def)

lemma recent_collections_Nil:
  "recent_collections ip db = [] \<longleftrightarrow> collections_of ip db = []"
proof -
  have "length (recent_collections ip db) = min 5 (length (collections_of ip db))"
    by (simp add: recent_collections_def min.commute)
  then show ?thesis
    by (metis length_0_conv min_0R min_less_iff_conj zero_less_numeral less_numeral_extra(3)
        length_greater_0_conv)
qed

lemma collections_of_unknown:
  "\<not> (\<exists>r \<in> set (systems db). ip_address r = ip) \<Longrightarrow> collections_of ip db = []"
  by (auto simp: collections_of_def filter_empty_conv)

lemma query_data_cases:
  "query_data fails ip db =
     (if fails SelectCollections then Inl InternalServerError
      else if collections_of ip db = [] then Inl (HTTPException 404 (no_data_detail ip))
      else Inl InternalServerError)"
  by (simp add: query_data_def scalars_all_def recent_collections_Nil)

text \<open>
  C1, amended. When the read does not fail, a query for an address without a host row
  fails with the 404 error whose detail names the address, and so does a query for an
  address whose host row owns no collection: the answer is 404 exactly when no
  collection is joined to a host row of the address, and a successful answer is never
  the empty array.
\<close>

theorem query_data_not_found:
  assumes "\<not> fails SelectCollections"
  shows "(\<not> (\<exists>r \<in> set (systems db). ip_address r = ip) \<longrightarrow>
            query_data fails ip db =
              Inl (HTTPException 404 (''No se encontraron datos para la IP: '' @ ip))) \<and>
         (collections_of ip db = [] \<longrightarrow>
            query_data fails ip db =
              Inl (HTTPException 404 (''No se encontraron datos para la IP: '' @ ip))) \<and>
         (response_status 200 (query_data fails ip db) = 404 \<longleftrightarrow> collections_of ip db = []) \<and>
         query_data fails ip db \<noteq> Inr []"
proof -
  have nf: "collections_of ip db = [] \<Longrightarrow> query_data fails ip db =
              Inl (HTTPException 404 (''No se encontraron datos para la IP: '' @ ip))"
    using assms by (simp add: query_data_cases no_data_detail_def)
  have "\<not> (\<exists>r \<in> set (systems db). ip_address r = ip) \<longrightarrow>
            query_data fails ip db =
              Inl (HTTPException 404 (''No se encontraron datos para la IP: '' @ ip))"
    using nf collections_of_unknown [of db ip] by blast
  moreover have "response_status 200 (query_data fails ip db) = 404
       \<longleftrightarrow> collections_of ip db = []"
    using assms by (simp add: query_data_cases response_status_def)
  moreover have "query_data fails ip db \<noteq> Inr []"
    using assms by (simp add: query_data_cases)
  ultimately show ?thesis using nf by blast
qed

theorem query_data_not_found_witness:
  "query_data no_faults ''10.0.0.7'' busy_store =
     Inl (HTTPException 404 ''No se encontraron datos para la IP: 10.0.0.7'') \<and>
   collections_of ''10.0.0.9'' host_only_store = [] \<and>
   response_status 200 (query_data no_faults ''10.0.0.9'' host_only_store) = 404"
proof -
  have f: "\<not> no_faults SelectCollections" by (simp add: no_faults_def)
  have u: "\<not> (\<exists>r \<in> set (systems busy_store). ip_address r = ''10.0.0.7'')"
    by (simp add: busy_store_def)
  have e: "collections_of ''10.0.0.9'' host_only_store = []"
    by (simp add: collections_of_def host_only_store_def)
  from query_data_not_found [where fails = no_faults and db = busy_store and ip = "''10.0.0.7''"] f u
  have "query_data no_faults ''10.0.0.7'' busy_store =
     Inl (HTTPException 404 (''No se encontraron datos para la IP: '' @ ''10.0.0.7''))"
    by blast
  moreover from query_data_not_found [where fails = no_faults and db = host_only_store and ip = "''10.0.0.9''"] f e
  have "response_status 200 (query_data no_faults ''10.0.0.9'' host_only_store) = 404"
    by blast
  ultimately show ?thesis using e by simp
qed


section \<open>The query handler: reading the five most recent collections\<close>

lemma newest_first_sorted:
  "sorted (map (\<lambda>c. - collection_timestamp c) cs) \<Longrightarrow>
     sorted_wrt (\<ge>) (map collection_timestamp cs)"
  by (simp add: sorted_wrt_map)

lemma newest_first_strict:
  assumes "sorted (map (\<lambda>c. - collection_timestamp c) cs)"
    and "distinct (map collection_timestamp cs)"
  shows "sorted_wrt (>) (map collection_timestamp cs)"
proof -
  have "distinct (map (\<lambda>c. - collection_timestamp c) cs)"
    using assms(2) by (simp add: distinct_map inj_on_def)
  with assms(1) have "sorted_wrt (<) (map (\<lambda>c. - collection_timestamp c) cs)"
    by (simp add: strict_sorted_iff)
  then show ?thesis by (simp add: sorted_wrt_map)
qed

lemma item_timestamp_project:
  "map item_timestamp (map (project db) cs) = map collection_timestamp cs"
  by (simp add: project_def comp_def)

lemma recent_sorted:
  "sorted (map (\<lambda>c. - collection_timestamp c) (recent_collections ip db))"
proof -
  have "sorted (map (\<lambda>c. - collection_timestamp c)
      (sort_key (\<lambda>c. - collection_timestamp c) (collections_of ip db)))"
    by (rule sorted_sort_key)
  then have "sorted (take 5 (map (\<lambda>c. - collection_timestamp c)
      (sort_key (\<lambda>c. - collection_timestamp c) (collections_of ip db))))"
    by (rule sorted_wrt_take)
  then show ?thesis by (simp add: recent_collections_def take_map)
qed

lemma recent_subset: "set (recent_collections ip db) \<subseteq> set (collections_of ip db)"
proof -
  have "set (recent_collections ip db)
      \<subseteq> set (sort_key (\<lambda>c. - collection_timestamp c) (collections_of ip db))"
    unfolding recent_collections_def by (rule set_take_subset)
  then show ?thesis by simp
qed

lemma recent_distinct_timestamps:
  assumes "distinct (map collection_timestamp (collections_of ip db))"
  shows "distinct (map collection_timestamp (recent_collections ip db))"
proof -
  let ?ys = "sort_key (\<lambda>c. - collection_timestamp c) (collections_of ip db)"
  from assms have "distinct (collections_of ip db)"
    and "inj_on collection_timestamp (set (collections_of ip db))"
    by (simp_all add: distinct_map)
  then have "distinct (map collection_timestamp ?ys)"
    by (simp add: distinct_map)
  then have "distinct (take 5 (map collection_timestamp ?ys))"
    by (rule distinct_take)
  then show ?thesis by (simp add: recent_collections_def take_map)
qed

lemma recent_newest:
  assumes "c \<in> set (collections_of ip db)" "c \<notin> set (recent_collections ip db)"
    and "d \<in> set (recent_collections ip db)"
  shows "collection_timestamp c \<le> collection_timestamp d"
proof -
  let ?f = "\<lambda>c. - collection_timestamp c"
  let ?ys = "sort_key ?f (collections_of ip db)"
  have split: "?ys = take 5 ?ys @ drop 5 ?ys" by simp
  from assms(1) have "c \<in> set ?ys" by simp
  then have "c \<in> set (take 5 ?ys) \<union> set (drop 5 ?ys)"
    by (subst (asm) split) (simp only: set_append)
  with assms(2) have c: "c \<in> set (drop 5 ?ys)"
    by (simp add: recent_collections_def)
  from assms(3) have d: "d \<in> set (take 5 ?ys)"
    by (simp add: recent_collections_def)
  have "sorted (map ?f ?ys)" by (rule sorted_sort_key)
  then have "sorted (map ?f (take 5 ?ys) @ map ?f (drop 5 ?ys))"
    by (subst (asm) split) (simp only: map_append)
  then have "\<forall>x \<in> set (map ?f (take 5 ?ys)). \<forall>y \<in> set (map ?f (drop 5 ?ys)). x \<le> y"
    by (simp only: sorted_append) blast
  with c d have "?f d \<le> ?f c" by (simp only: set_map) blast
  then show ?thesis by simp
qed

text \<open>
  What the statement of line 111 selects and line 116 projects, for an address whose
  host owns \<open>n\<close> collections: \<open>min 5 n\<close> items, so at most five, ordered by timestamp,
  newest first (the timestamps never increase along the list, and decrease strictly when
  the host's timestamps are pairwise distinct); every collection of the host that is
  left out is at most as recent as every one selected; and each item is the flat record
  of one collection: its timestamp, its CPU usage, the pid and name of each of its
  process rows, and the user name of each of its logged-user rows.
\<close>

lemma recent_collections_newest_first:
  "length (map (project db) (recent_collections ip db))
       = min 5 (length (collections_of ip db)) \<and>
   length (map (project db) (recent_collections ip db)) \<le> 5 \<and>
   sorted_wrt (\<ge>) (map item_timestamp (map (project db) (recent_collections ip db))) \<and>
   (distinct (map collection_timestamp (collections_of ip db)) \<longrightarrow>
      sorted_wrt (>) (map item_timestamp (map (project db) (recent_collections ip db)))) \<and>
   set (recent_collections ip db) \<subseteq> set (collections_of ip db) \<and>
   (\<forall>c \<in> set (collections_of ip db). c \<notin> set (recent_collections ip db) \<longrightarrow>
      (\<forall>d \<in> set (recent_collections ip db).
         collection_timestamp c \<le> collection_timestamp d)) \<and>
   (\<forall>c \<in> set (recent_collections ip db).
      project db c =
        \<lparr>item_timestamp = collection_timestamp c,
         cpu_usage = cpu_usage_percent c,
         item_processes = map (\<lambda>p. (proc_pid p, proc_name p))
           (filter (\<lambda>p. proc_collection_id p = col_id c) (processes db)),
         users = map lu_username
           (filter (\<lambda>u. lu_collection_id u = col_id c) (logged_users db))\<rparr>)"
proof -
  let ?items = "map (project db) (recent_collections ip db)"
  have len: "length ?items = min 5 (length (collections_of ip db))"
    by (simp add: recent_collections_def min.commute)
  have le: "length ?items \<le> 5"
    by (simp add: recent_collections_def)
  have sorted: "sorted_wrt (\<ge>) (map item_timestamp ?items)"
    unfolding item_timestamp_project by (rule newest_first_sorted [OF recent_sorted])
  have strict: "distinct (map collection_timestamp (collections_of ip db)) \<longrightarrow>
        sorted_wrt (>) (map item_timestamp ?items)"
    unfolding item_timestamp_project
    using newest_first_strict [OF recent_sorted recent_distinct_timestamps] by blast
  have newest: "\<forall>c \<in> set (collections_of ip db). c \<notin> set (recent_collections ip db) \<longrightarrow>
        (\<forall>d \<in> set (recent_collections ip db).
           collection_timestamp c \<le> collection_timestamp d)"
    using recent_newest by blast
  have proj: "\<forall>c \<in> set (recent_collections ip db).
        project db c =
          \<lparr>item_timestamp = collection_timestamp c,
           cpu_usage = cpu_usage_percent c,
           item_processes = map (\<lambda>p. (proc_pid p, proc_name p))
             (filter (\<lambda>p. proc_collection_id p = col_id c) (processes db)),
           users = map lu_username
             (filter (\<lambda>u. lu_collection_id u = col_id c) (logged_users db))\<rparr>"
    by (simp add: project_def)
  from len le sorted strict recent_subset [of ip db] newest proj
  show ?thesis by (simp only: simp_thms)
qed

text \<open>
  C5. The handler does not return that list. For every address whose host owns at
  least one collection, and when the read itself does not fail, \<^verbatim>\<open>scalars().all()\<close> raises
  at the first row (the result holds joined eager loads of collections and \<^verbatim>\<open>unique()\<close>
  is not called), so the query is answered with the 500 error and with no list at all,
  whatever the number and the timestamps of the collections are.
\<close>

theorem query_data_raises:
  assumes "\<not> fails SelectCollections" "collections_of ip db \<noteq> []"
  shows "query_data fails ip db = Inl InternalServerError \<and>
     response_status 200 (query_data fails ip db) = 500 \<and>
     (\<forall>items. query_data fails ip db \<noteq> Inr items)"
  using assms by (simp add: query_data_cases response_status_def)

theorem query_data_raises_witness:
  "post_collect ''s3cret'' no_faults (clock_from 100) example_request empty_store =
     (Inr [(''status'', ''success''),
           (''message'', ''Datos de 10.0.0.5 almacenados en la base de datos.'')],
      example_store) \<and>
   length (collections_of ''10.0.0.5'' example_store) = 1 \<and>
   query_data no_faults ''10.0.0.5'' example_store = Inl InternalServerError \<and>
   response_status 200 (query_data no_faults ''10.0.0.5'' example_store) = 500"
proof -
  have f: "\<not> no_faults SelectCollections" by (simp add: no_faults_def)
  have n: "length (collections_of ''10.0.0.5'' example_store) = 1"
    by (simp add: collections_of_def example_store_def)
  then have ne: "collections_of ''10.0.0.5'' example_store \<noteq> []" by auto
  from query_data_raises [where fails = no_faults and db = example_store
      and ip = "''10.0.0.5''"] f ne
  have "query_data no_faults ''10.0.0.5'' example_store = Inl InternalServerError"
    and "response_status 200 (query_data no_faults ''10.0.0.5'' example_store) = 500"
    by blast+
  with n first_ingest show ?thesis by simp
qed

section \<open>The table constraints are kept by every request\<close>

text \<open>
  The statements above that assume \<open>wf_store\<close> speak of every store the program can
  reach from the empty database: the empty store satisfies the constraints, and every
  request, successful or not, keeps them.
\<close>

lemma add_processes_collection_ids:
  "list_all (\<lambda>p. proc_collection_id p \<in> S) table \<Longrightarrow> cid \<in> S \<Longrightarrow>
     list_all (\<lambda>p. proc_collection_id p \<in> S) (add_processes cid entries table)"
  by (induction cid entries table rule: add_processes.induct) simp_all

lemma add_logged_users_collection_ids:
  "list_all (\<lambda>u. lu_collection_id u \<in> S) table \<Longrightarrow> cid \<in> S \<Longrightarrow>
     list_all (\<lambda>u. lu_collection_id u \<in> S) (add_logged_users cid entries table)"
  by (induction cid entries table rule: add_logged_users.induct) simp_all

lemma list_all_mono_set:
  "list_all (\<lambda>x. f x \<in> S) xs \<Longrightarrow> S \<subseteq> T \<Longrightarrow> list_all (\<lambda>x. f x \<in> T) xs"
  by (auto simp: list_all_iff)

lemma resolve_system_wf:
  assumes "distinct (map sys_id table)" "distinct (map ip_address table)"
    and "resolve_system fails utcnow data client_ip table = Inr (system, table', k)"
  shows "distinct (map sys_id table') \<and> distinct (map ip_address table') \<and>
     set (map sys_id table) \<subseteq> set (map sys_id table') \<and> system \<in> set table'"
proof -
  note r = resolve_system_Inr [OF assms(3)]
  show ?thesis
  proof (cases "\<exists>r \<in> set table. ip_address r = client_ip")
    case False
    with r have t: "table' = table @ [system]"
      and s: "sys_id system = next_id (map sys_id table)" "ip_address system = client_ip"
      by auto
    have "sys_id system \<notin> set (map sys_id table)"
      unfolding s by (rule next_id_notin)
    moreover from False s have "ip_address system \<notin> set (map ip_address table)"
      by auto
    ultimately show ?thesis using assms(1,2) t by auto
  next
    case True
    then obtain found where f: "found \<in> set table" "ip_address found = client_ip" by blast
    from r have sel: "\<not> fails SelectSystem" by simp
    from resolve_system_existing [where fails = fails and utcnow = utcnow and data = data
        and table = table and found = found and client_ip = client_ip] sel assms f
    have t: "table' = map (\<lambda>r. if ip_address r = client_ip
                               then r\<lparr>last_seen := utcnow 0\<rparr> else r) table"
      by simp
    have "map sys_id table' = map sys_id table" "map ip_address table' = map ip_address table"
      unfolding t by (rule map_conditional_update, simp)+
    with assms(1,2) r show ?thesis by simp
  qed
qed

lemma collect_session_wf:
  assumes "wf_store db" "collect_session fails utcnow data client_ip db = Inr db'"
  shows "wf_store db'"
proof -
  let ?cid = "next_id (map col_id (collections db))"
  from collect_session_Inr [OF assms(2)] obtain system table k where
    res: "resolve_system fails utcnow data client_ip (systems db) = Inr (system, table, k)"
    and sys: "systems db' = table"
    and col: "collections db' = collections db @
       [\<lparr>col_id = ?cid, system_id = sys_id system, collection_timestamp = utcnow k,
         cpu_usage_percent = usage_percent (cpu_info data)\<rparr>]"
    and procs: "processes db' = (case running_processes data of
         PyList entries \<Rightarrow> add_processes ?cid entries (processes db)
       | PyDict d \<Rightarrow> processes db)"
    and users: "logged_users db' = (case logged_in_users data of
         PyList entries \<Rightarrow> add_logged_users ?cid entries (logged_users db)
       | PyDict d \<Rightarrow> logged_users db)"
    by blast
  from assms(1) have wf:
    "distinct (map sys_id (systems db))" "distinct (map ip_address (systems db))"
    "distinct (map col_id (collections db))"
    "list_all (\<lambda>c. system_id c \<in> set (map sys_id (systems db))) (collections db)"
    "list_all (\<lambda>p. proc_collection_id p \<in> set (map col_id (collections db))) (processes db)"
    "list_all (\<lambda>u. lu_collection_id u \<in> set (map col_id (collections db))) (logged_users db)"
    by (simp_all add: wf_store_def)
  from resolve_system_wf [OF wf(1,2) res]
  have t: "distinct (map sys_id table)" "distinct (map ip_address table)"
    "set (map sys_id (systems db)) \<subseteq> set (map sys_id table)" "system \<in> set table"
    by simp_all
  let ?S = "set (map col_id (collections db'))"
  have sub: "set (map col_id (collections db)) \<subseteq> ?S" and cid: "?cid \<in> ?S"
    unfolding col by auto
  have c1: "distinct (map col_id (collections db'))"
    unfolding col using wf(3) next_id_notin [of "map col_id (collections db)"] by simp
  have c2: "list_all (\<lambda>c. system_id c \<in> set (map sys_id (systems db'))) (collections db')"
    unfolding col sys using list_all_mono_set [OF wf(4) t(3)] t(4) by simp
  have p0: "list_all (\<lambda>p. proc_collection_id p \<in> ?S) (processes db)"
    by (rule list_all_mono_set [OF wf(5) sub])
  have u0: "list_all (\<lambda>u. lu_collection_id u \<in> ?S) (logged_users db)"
    by (rule list_all_mono_set [OF wf(6) sub])
  have c3: "list_all (\<lambda>p. proc_collection_id p \<in> ?S) (processes db')"
    unfolding procs using p0 add_processes_collection_ids [OF p0 cid]
    by (cases "running_processes data") simp_all
  have c4: "list_all (\<lambda>u. lu_collection_id u \<in> ?S) (logged_users db')"
    unfolding users using u0 add_logged_users_collection_ids [OF u0 cid]
    by (cases "logged_in_users data") simp_all
  from t(1,2) c1 c2 c3 c4 show ?thesis
    unfolding wf_store_def sys by (simp only: simp_thms)
qed

lemma post_collect_wf:
  assumes "wf_store db" "post_collect tok fails utcnow request db = (res, db')"
  shows "wf_store db'"
proof (cases res)
  case (Inl e)
  with assms show ?thesis using post_collect_Inl by blast
next
  case (Inr b)
  with assms(2) post_collect_Inr [of tok fails utcnow request db b db']
  obtain data where
    "collect_session fails utcnow data (client_ip_of request) db = Inr db'"
    by blast
  with assms(1) show ?thesis by (rule collect_session_wf)
qed

lemma wf_empty_store: "wf_store empty_store"
  by (simp add: wf_store_def empty_store_def)

end
